theory Spec2Isabelle
  imports Complex_Main "HOL-Library.Sublist"
begin

section \<open>Configuration constants (config.js)\<close>

definition KITCHEN_A :: string where "KITCHEN_A = ''A''"
definition KITCHEN_B :: string where "KITCHEN_B = ''B''"
definition KITCHEN_C :: string where "KITCHEN_C = ''C''"
definition KITCHEN_Z :: string where "KITCHEN_Z = ''Z''"

definition DINE_IN :: string where "DINE_IN = ''Dine In''"
definition TAKE_OUT :: string where "TAKE_OUT = ''Take Out''"

definition EGG_ROLL :: string where "EGG_ROLL = ''Egg Roll''"
definition SPRING_ROLL :: string where "SPRING_ROLL = ''Spring Roll''"
definition RICE :: string where "RICE = ''Rice''"
definition NOODLES :: string where "NOODLES = ''Noodles''"

definition SPECIAL_ITEM :: string where "SPECIAL_ITEM = ''#3''"

definition PST_RATE :: real where "PST_RATE = 6 / 100"
definition GST_RATE :: real where "GST_RATE = 5 / 100"

definition RESTAURANT_name :: string where "RESTAURANT_name = ''Asian Le Restaurant''"
definition RESTAURANT_address :: string where "RESTAURANT_address = ''3-1400 6th Ave E''"
definition RESTAURANT_phone :: string where "RESTAURANT_phone = ''306-764-7799''"


section \<open>JavaScript string helpers\<close>

text \<open>
  Strings are byte lists. \<open>slice\<close> is \<^verbatim>\<open>String.prototype.slice(begin, end)\<close>: a negative
  index counts from the end and is clamped at 0, a positive one is clamped at the length,
  and an absent end is the length.
\<close>

definition sliceIndex :: "nat \<Rightarrow> int \<Rightarrow> nat" where
  "sliceIndex n i = (if i < 0 then nat (max (int n + i) 0) else min (nat i) n)"

definition slice :: "string \<Rightarrow> int \<Rightarrow> int option \<Rightarrow> string" where
  "slice s b e =
     (let n = length s;
          from = sliceIndex n b;
          to = (case e of None \<Rightarrow> n | Some e' \<Rightarrow> sliceIndex n e')
      in drop from (take to s))"

text \<open>The regular expression class \<^verbatim>\<open>\D\<close> is every character outside 0..9.\<close>

definition isDigit :: "char \<Rightarrow> bool" where
  "isDigit c = (c \<in> set ''0123456789'')"

text \<open>Decimal rendering of an integer, as a template literal renders a whole number.\<close>

definition digitChar :: "nat \<Rightarrow> char" where
  "digitChar d = ''0123456789'' ! d"

fun digitsOf :: "nat \<Rightarrow> string" where
  "digitsOf n = (if n < 10 then [digitChar n] else digitsOf (n div 10) @ [digitChar (n mod 10)])"

declare digitsOf.simps [simp del]

definition showInt :: "int \<Rightarrow> string" where
  "showInt i = (if i < 0 then CHR ''-'' # digitsOf (nat (- i)) else digitsOf (nat i))"

text \<open>\<^verbatim>\<open>toUpperCase\<close> on the ASCII letters; other bytes are kept.\<close>

definition upperChar :: "char \<Rightarrow> char" where
  "upperChar c =
     (let k = (of_char c :: nat) in if 97 \<le> k \<and> k \<le> 122 then char_of (k - 32) else c)"

definition toUpperCase :: "string \<Rightarrow> string" where
  "toUpperCase s = map upperChar s"


section \<open>utils.js\<close>

text \<open>
  \<^verbatim>\<open>formatPhone(phone)\<close>: \<open>None\<close> is a null or undefined argument; the empty string is
  falsy as well.
\<close>

definition formatPhone :: "string option \<Rightarrow> string" where
  "formatPhone phone =
     (case phone of
        None \<Rightarrow> ''''
      | Some p \<Rightarrow>
          if p = '''' then ''''
          else
            let digits = filter isDigit p in
            if length digits > 7 then
              slice digits 0 (Some (- 7)) @ '' '' @ slice digits (- 7) (Some (- 4)) @ ''-''
                @ slice digits (- 4) None
            else slice digits 0 (Some (- 4)) @ ''-'' @ slice digits (- 4) None)"

text \<open>
  A Firestore timestamp arrives either as a rich object with a \<^verbatim>\<open>toDate\<close> method or as a
  \<^verbatim>\<open>{seconds, nanoseconds}\<close> pair. A date is its epoch time in milliseconds.
\<close>

datatype timestamp = TsRich int | TsPair int int | TsOther

definition toDateMaybe :: "timestamp option \<Rightarrow> int option" where
  "toDateMaybe ts =
     (case ts of
        None \<Rightarrow> None
      | Some (TsRich d) \<Rightarrow> Some d
      | Some (TsPair seconds nanoseconds) \<Rightarrow> Some (seconds * 1000 + nanoseconds div 1000000)
      | Some TsOther \<Rightarrow> None)"

text \<open>The three option sets \<^verbatim>\<open>formatDate\<close> is called with in printer.js.\<close>

datatype dateOptions = YearMonthDay | WeekdayTime | FullStamp

text \<open>
  What the JavaScript runtime supplies and this development does not compute: the locale
  rendering of a date, \<^verbatim>\<open>Number.prototype.toFixed(2)\<close>, and the conversion of such a
  rendering back to a number in a comparison.
\<close>

record runtime =
  toLocaleString :: "int \<Rightarrow> dateOptions \<Rightarrow> string"
  toFixed2 :: "real \<Rightarrow> string"
  toNumber :: "string \<Rightarrow> real"

definition formatDate :: "runtime \<Rightarrow> int option \<Rightarrow> dateOptions \<Rightarrow> string" where
  "formatDate rt date opts = (case date of None \<Rightarrow> '''' | Some d \<Rightarrow> toLocaleString rt d opts)"


section \<open>Order data\<close>

record opt =
  oname :: string
  oquantity :: "int option"
  oprice :: "real option"

record extra =
  description :: string
  eprice :: "real option"

record change =
  cfrom :: string
  cto :: string
  cprice :: "real option"

text \<open>
  An order item. \<open>options\<close>, \<open>extras\<close> and \<open>changes\<close> are \<open>None\<close> when the field is absent
  (or is not an array); \<open>kitchenType\<close> is \<open>None\<close> when the item has none; \<open>displayName\<close> is
  \<open>None\<close> until \<open>preprocessOrderItem\<close> sets it.
\<close>

record item =
  name :: string
  quantity :: "int option"
  price :: "real option"
  kitchenType :: "string option"
  appetizer :: bool
  togo :: bool
  options :: "opt list option"
  extras :: "extra list option"
  changes :: "change list option"
  instructions :: "string option"
  displayName :: "string option"

record taxBreakDownRec =
  tbTotal :: "real option"
  tbPst :: "real option"
  tbGst :: "real option"
  tbGrandTotal :: "real option"

record order =
  orderId :: string
  orderType :: string
  isPreorder :: bool
  paid :: bool
  tableNumber :: "string option"
  customerName :: "string option"
  phoneNumber :: "string option"
  staffName :: "string option"
  guests :: "int option"
  createdAt :: "timestamp option"
  preorderTime :: "timestamp option"
  readyTime :: "int option"
  orderItems :: "item list option"
  total :: "real option"
  taxBreakDown :: "taxBreakDownRec option"
  taxbreakdown :: "taxBreakDownRec option"
  printId :: "string option"

text \<open>JavaScript truthiness of an optional string and of an optional number.\<close>

definition truthyS :: "string option \<Rightarrow> bool" where
  "truthyS s = (case s of None \<Rightarrow> False | Some v \<Rightarrow> v \<noteq> '''')"

definition truthyN :: "int option \<Rightarrow> bool" where
  "truthyN n = (case n of None \<Rightarrow> False | Some v \<Rightarrow> v \<noteq> 0)"


section \<open>orderItems.js\<close>

subsection \<open>preprocessOrderItem\<close>

text \<open>
  \<^verbatim>\<open>options.filter((opt) => opt !== found)\<close> compares object identities: it drops the one
  object that \<^verbatim>\<open>find\<close> returned, the first that satisfies the predicate, and keeps every
  other option, also one with equal fields. On a list of values that is the removal of the
  first element satisfying the predicate. (The heap model further down drops by identity;
  \<open>preprocessOrderItem_models_agree\<close> relates the two.)
\<close>

fun removeFound :: "('a \<Rightarrow> bool) \<Rightarrow> 'a list \<Rightarrow> 'a list" where
  "removeFound P [] = []"
| "removeFound P (x # xs) = (if P x then xs else x # removeFound P xs)"

definition isMainOption :: "opt \<Rightarrow> bool" where
  "isMainOption op = (oname op \<noteq> EGG_ROLL \<and> oname op \<noteq> SPRING_ROLL)"

definition isEggSpringOption :: "opt \<Rightarrow> bool" where
  "isEggSpringOption op =
     ((oname op = EGG_ROLL \<or> oname op = SPRING_ROLL) \<and>
      (case oquantity op of None \<Rightarrow> True | Some q \<Rightarrow> q = 0 \<or> q \<le> 1))"

definition isRiceNoodleOption :: "opt \<Rightarrow> bool" where
  "isRiceNoodleOption op = (oname op = RICE \<or> oname op = NOODLES)"

text \<open>The template \<^verbatim>\<open>quantity > 1 ? `${quantity}x ${name}` : name\<close>.\<close>

definition quantityLabel :: "int option \<Rightarrow> string \<Rightarrow> string" where
  "quantityLabel q n =
     (case q of
        None \<Rightarrow> n
      | Some k \<Rightarrow> if k > 1 then showInt k @ ''x '' @ n else n)"

definition applySpecialRule :: "string \<times> opt list \<Rightarrow> string \<times> opt list" where
  "applySpecialRule st =
     (case st of (nm, opts) \<Rightarrow>
        if nm = SPECIAL_ITEM then
          (case find isMainOption opts of
             Some mainOption \<Rightarrow> (nm @ ''/'' @ oname mainOption, removeFound isMainOption opts)
           | None \<Rightarrow> (nm, opts))
        else (nm, opts))"

definition applyEggSpringRule :: "string \<times> opt list \<Rightarrow> string \<times> opt list" where
  "applyEggSpringRule st =
     (case st of (nm, opts) \<Rightarrow>
        (case find isEggSpringOption opts of
           Some eggSpringOption \<Rightarrow>
             (nm @ ''/'' @ (if oname eggSpringOption = EGG_ROLL then ''ER'' else ''SP''),
              removeFound isEggSpringOption opts)
         | None \<Rightarrow> (nm, opts)))"

definition applyRiceNoodleRule :: "string \<times> opt list \<Rightarrow> string \<times> opt list" where
  "applyRiceNoodleRule st =
     (case st of (nm, opts) \<Rightarrow>
        (case find isRiceNoodleOption opts of
           Some riceNoodleOption \<Rightarrow>
             (nm @ ''/'' @ (if oname riceNoodleOption = RICE then ''Rice'' else ''ND''),
              removeFound isRiceNoodleOption opts)
         | None \<Rightarrow> (nm, opts)))"

definition preprocessOrderItem :: "item \<Rightarrow> item" where
  "preprocessOrderItem it =
     (case options it of
        None \<Rightarrow> it\<lparr>displayName := Some (quantityLabel (quantity it) (name it))\<rparr>
      | Some [] \<Rightarrow> it\<lparr>displayName := Some (quantityLabel (quantity it) (name it))\<rparr>
      | Some opts \<Rightarrow>
          (case applyRiceNoodleRule (applyEggSpringRule (applySpecialRule (name it, opts))) of
             (nm, rest) \<Rightarrow>
               it\<lparr>name := nm, options := Some rest,
                  displayName := Some (quantityLabel (quantity it) nm)\<rparr>))"

definition preprocessOrderItems :: "item list option \<Rightarrow> item list" where
  "preprocessOrderItems rawItems =
     (case rawItems of None \<Rightarrow> [] | Some its \<Rightarrow> map preprocessOrderItem its)"

subsection \<open>groupItemsByKitchen\<close>

record sect =
  label :: string
  items :: "item list"

definition filterByKitchen :: "string \<Rightarrow> item \<Rightarrow> bool" where
  "filterByKitchen kt it = (kitchenType it = Some kt \<and> \<not> appetizer it \<and> \<not> togo it)"

definition isTogoItem :: "item \<Rightarrow> bool" where
  "isTogoItem it = (togo it \<and> \<not> appetizer it)"

text \<open>The array \<^verbatim>\<open>sections\<close> before its empty members are filtered out.\<close>

definition allSections :: "item list \<Rightarrow> bool \<Rightarrow> sect list" where
  "allSections its excludeTogo =
     (let appetizers = filter appetizer its;
          kitchenA = filter (filterByKitchen KITCHEN_A) its;
          kitchenB = filter (filterByKitchen KITCHEN_B) its;
          kitchenZ = filter (filterByKitchen KITCHEN_Z) its;
          kitchenC = filter (filterByKitchen KITCHEN_C) its
      in [\<lparr>label = ''Appetizers'', items = appetizers\<rparr>,
          \<lparr>label = ''Kitchen A'', items = kitchenA\<rparr>,
          \<lparr>label = ''Kitchen Z'', items = kitchenZ\<rparr>,
          \<lparr>label = ''Kitchen B'', items = kitchenB\<rparr>,
          \<lparr>label = ''Kitchen C'', items = kitchenC\<rparr>]
         @ (if \<not> excludeTogo
            then [\<lparr>label = ''Togo Items'', items = filter isTogoItem its\<rparr>]
            else []))"

definition groupItemsByKitchen :: "item list \<Rightarrow> bool \<Rightarrow> sect list" where
  "groupItemsByKitchen its excludeTogo =
     filter (\<lambda>s. length (items s) > 0) (allSections its excludeTogo)"

subsection \<open>getOrderTotals\<close>

text \<open>
  A field of the breakdown is \<open>Some\<close> exactly when \<^verbatim>\<open>typeof\<close> of it is \<^verbatim>\<open>"number"\<close>.
  Numbers are exact reals here: rounding of the two products is not modelled.
\<close>

record totals =
  subtotal :: real
  pst :: real
  gst :: real
  grandTotal :: real

definition nullish :: "'a option \<Rightarrow> 'a option \<Rightarrow> 'a option" where
  "nullish a b = (case a of Some v \<Rightarrow> Some v | None \<Rightarrow> b)"

definition getOrderTotals :: "order \<Rightarrow> real option \<Rightarrow> totals" where
  "getOrderTotals ord fallbackSubtotal =
     (let tb = nullish (taxBreakDown ord) (taxbreakdown ord);
          trusted = (case tb of None \<Rightarrow> None
                     | Some t \<Rightarrow> (case tbGrandTotal t of None \<Rightarrow> None | Some g \<Rightarrow> Some (t, g)))
      in case trusted of
           Some (t, g) \<Rightarrow>
             \<lparr>subtotal = (case tbTotal t of Some v \<Rightarrow> v
                          | None \<Rightarrow> (case fallbackSubtotal of Some f \<Rightarrow> f | None \<Rightarrow> 0)),
              pst = (case tbPst t of Some v \<Rightarrow> v | None \<Rightarrow> 0),
              gst = (case tbGst t of Some v \<Rightarrow> v | None \<Rightarrow> 0),
              grandTotal = g\<rparr>
         | None \<Rightarrow>
             (let sub = (case nullish fallbackSubtotal (total ord) of Some v \<Rightarrow> v | None \<Rightarrow> 0);
                  p = sub * PST_RATE;
                  g = sub * GST_RATE
              in \<lparr>subtotal = sub, pst = p, gst = g, grandTotal = sub + p + g\<rparr>))"


section \<open>printer.js\<close>

text \<open>
  The printable surface is the buffer of commands issued to a \<^verbatim>\<open>ThermalPrinter\<close>, oldest
  first. Every helper appends to it. An order is a typed record, so the type errors a
  malformed document would raise while formatting have no counterpart here.
\<close>

datatype command =
    AlignCenter | AlignLeft | AlignRight
  | SetTextQuadArea | SetTextNormal | SetTextSize nat nat
  | Bold bool | Underline bool
  | Println string | NewLine | LeftRight string string
  | Cut | Execute

type_synonym printer = "command list"

definition dashes :: string where
  "dashes = ''--------------------------------''"

definition printSectionHeader :: "printer \<Rightarrow> string \<Rightarrow> printer" where
  "printSectionHeader pr title =
     pr @ [AlignCenter, SetTextQuadArea, Bold True, Println (''---- '' @ title @ '' ----''),
           AlignLeft, SetTextNormal, NewLine]"

definition printRestaurantHeader :: "printer \<Rightarrow> order \<Rightarrow> printer" where
  "printRestaurantHeader pr ord =
     (if paid ord then pr @ [AlignCenter, SetTextSize 2 2, Println ''Paid'', NewLine] else pr)
     @ [AlignCenter, SetTextQuadArea, Bold True, Println RESTAURANT_name, NewLine]"

definition printOrderTypeHeader :: "printer \<Rightarrow> order \<Rightarrow> string \<Rightarrow> printer" where
  "printOrderTypeHeader pr ord kitchen =
     pr @ [SetTextSize 2 2, Bold False]
     @ (if orderType ord = TAKE_OUT \<and> \<not> isPreorder ord
        then [Println (''*Take Out '' @ kitchen @ ''*''), NewLine]
        else (case tableNumber ord of
                Some t \<Rightarrow> if t \<noteq> '''' then [Println (''Table: '' @ t)] else []
              | None \<Rightarrow> []))"

definition printPreorderInfo :: "runtime \<Rightarrow> printer \<Rightarrow> order \<Rightarrow> string \<Rightarrow> printer" where
  "printPreorderInfo rt pr ord kitchen =
     (if \<not> isPreorder ord then pr
      else
        pr @ [SetTextQuadArea, Println (''***Pre-Order '' @ kitchen @ ''***'')]
        @ (case toDateMaybe (preorderTime ord) of
             Some preorderDate \<Rightarrow>
               [Println (formatDate rt (Some preorderDate) YearMonthDay),
                Println (formatDate rt (Some preorderDate) WeekdayTime)]
           | None \<Rightarrow> [NewLine, NewLine])
        @ [SetTextNormal])"

definition printOrderDetails :: "runtime \<Rightarrow> printer \<Rightarrow> order \<Rightarrow> printer" where
  "printOrderDetails rt pr ord =
     pr @ [SetTextNormal, AlignLeft]
     @ (case staffName ord of
          Some n \<Rightarrow> if n \<noteq> '''' then [Println (''Staff: '' @ n)] else []
        | None \<Rightarrow> [])
     @ (case guests ord of
          Some g \<Rightarrow> if orderType ord = DINE_IN \<and> g \<noteq> 0
                    then [Println (''Guests: '' @ showInt g)] else []
        | None \<Rightarrow> [])
     @ (case createdAt ord of
          Some ts \<Rightarrow> [Println (''Ordered At: '' @ formatDate rt (toDateMaybe (Some ts)) FullStamp)]
        | None \<Rightarrow> [])
     @ (case readyTime ord of
          Some r \<Rightarrow> if \<not> isPreorder ord \<and> r \<noteq> 0 \<and> orderType ord \<noteq> DINE_IN
                    then [Println (''Ready in: '' @ showInt r @ '' mins'')] else []
        | None \<Rightarrow> [])
     @ [SetTextQuadArea, Bold False]
     @ (if orderType ord = TAKE_OUT
        then (case customerName ord of
                Some n \<Rightarrow> if n \<noteq> '''' then [Println (''Customer: '' @ n)] else []
              | None \<Rightarrow> [])
             @ (if truthyS (phoneNumber ord)
                then [Println (''Phone: '' @ formatPhone (phoneNumber ord))] else [])
        else [])
     @ [SetTextNormal, Println dashes]"

text \<open>
  A price column: \<^verbatim>\<open>price > 0 ? `$${price.toFixed(2)}` : ""\<close>; an absent price is not
  greater than 0.
\<close>

definition priceColumn :: "runtime \<Rightarrow> real option \<Rightarrow> string" where
  "priceColumn rt p =
     (case p of Some v \<Rightarrow> if v > 0 then ''$'' @ toFixed2 rt v else '''' | None \<Rightarrow> '''')"

definition bullet :: string where
  "bullet = [CHR 0xE2, CHR 0x80, CHR 0xA2]"

definition printOption :: "runtime \<Rightarrow> opt \<Rightarrow> command list" where
  "printOption rt op =
     (let optName = quantityLabel (oquantity op) (oname op);
          optPrice =
            (case oprice op of
               Some v \<Rightarrow>
                 if v > 0
                 then (case oquantity op of Some q \<Rightarrow> showInt q | None \<Rightarrow> ''undefined'')
                      @ ''x '' @ toFixed2 rt v
                 else ''''
             | None \<Rightarrow> '''')
      in [LeftRight (''   '' @ bullet @ '' '' @ optName) optPrice, NewLine])"

definition printExtra :: "runtime \<Rightarrow> extra \<Rightarrow> command list" where
  "printExtra rt ex =
     [LeftRight (''   + Add Extra: '' @ toUpperCase (description ex)) (priceColumn rt (eprice ex)),
      NewLine]"

definition printChange :: "runtime \<Rightarrow> change \<Rightarrow> command list" where
  "printChange rt chg =
     [LeftRight (''   + Change: '' @ toUpperCase (cfrom chg) @ '' -->> '' @ toUpperCase (cto chg))
        (priceColumn rt (cprice chg)),
      NewLine]"

text \<open>
  The line total compares the \<^verbatim>\<open>toFixed(2)\<close> string with 0, which converts the string back
  to a number. An absent price or quantity makes the product NaN, which is not greater than 0.
\<close>

definition printOrderItem :: "runtime \<Rightarrow> printer \<Rightarrow> item \<Rightarrow> printer" where
  "printOrderItem rt pr it =
     pr @ [AlignLeft, Bold True, SetTextQuadArea,
           Println (case displayName it of Some d \<Rightarrow> d | None \<Rightarrow> ''undefined''),
           NewLine, SetTextNormal, Bold True]
     @ (case options it of Some os \<Rightarrow> concat (map (printOption rt) os) | None \<Rightarrow> [])
     @ (case extras it of Some es \<Rightarrow> concat (map (printExtra rt) es) | None \<Rightarrow> [])
     @ (case changes it of Some cs \<Rightarrow> concat (map (printChange rt) cs) | None \<Rightarrow> [])
     @ (case instructions it of
          Some n \<Rightarrow>
            if n \<noteq> ''''
            then [Println (toUpperCase (''   * Note: '' @ [CHR 0x22] @ n @ [CHR 0x22]))]
            else []
        | None \<Rightarrow> [])
     @ [AlignRight, SetTextNormal, Bold True,
        Println (case (price it, quantity it) of
                   (Some p, Some q) \<Rightarrow>
                     (let itemTotal = toFixed2 rt (p * real_of_int q)
                      in if toNumber rt itemTotal > 0 then ''$'' @ itemTotal else '''')
                 | _ \<Rightarrow> ''''),
        SetTextNormal]"

definition printSection :: "runtime \<Rightarrow> printer \<Rightarrow> sect \<Rightarrow> printer" where
  "printSection rt pr sec =
     (let p1 = (if label sec = ''Togo Items'' then printSectionHeader pr ''TO GO''
                else if label sec = ''Appetizers'' then printSectionHeader pr ''Appetizers''
                else pr);
          p2 = foldl (printOrderItem rt) p1 (items sec)
      in if label sec = ''Appetizers''
         then p2 @ [SetTextNormal, AlignLeft, Bold True, Println dashes]
         else p2)"

definition printOrderItems :: "runtime \<Rightarrow> printer \<Rightarrow> sect list \<Rightarrow> printer" where
  "printOrderItems rt pr groupedSections = foldl (printSection rt) pr groupedSections"

definition printTotals :: "runtime \<Rightarrow> printer \<Rightarrow> order \<Rightarrow> printer" where
  "printTotals rt pr ord =
     (let t = getOrderTotals ord None
      in pr @ [Println dashes, AlignRight, Bold False,
               Println (''Subtotal: $'' @ toFixed2 rt (subtotal t)),
               Println (''PST (6%): $'' @ toFixed2 rt (pst t)),
               Println (''GST (5%): $'' @ toFixed2 rt (gst t)),
               Println ''----------------------------'',
               SetTextQuadArea,
               Println (''TOTAL: $'' @ toFixed2 rt (grandTotal t)),
               SetTextNormal, NewLine])"

definition printFooter :: "printer \<Rightarrow> order \<Rightarrow> string \<Rightarrow> printer" where
  "printFooter pr ord kitchen =
     pr @ [AlignCenter, Underline True, Println ''Thank you! Please come again!'',
           Println RESTAURANT_address, Println RESTAURANT_phone, Underline False, NewLine,
           SetTextSize 2 2, Bold False]
     @ (if orderType ord = TAKE_OUT
        then [Println (''*'' @ (if isPreorder ord then ''Pre-Order'' else ''Take Out'') @ '' ''
                       @ kitchen @ ''*'')]
        else (case tableNumber ord of
                Some t \<Rightarrow> if t \<noteq> '''' then [Println (''Table: '' @ t)] else []
              | None \<Rightarrow> []))
     @ [NewLine]"

text \<open>
  What the device answers to one \<^verbatim>\<open>printOrder\<close> call: the connectivity check resolves to
  true or false or rejects, and \<^verbatim>\<open>execute\<close> resolves or rejects.
\<close>

datatype connectivity = Connected | NotConnected | CheckRejected

record device =
  isPrinterConnected :: connectivity
  executeOk :: bool

datatype error = ConnectionError | DeviceError

text \<open>
  \<^verbatim>\<open>printOrder(order, kitchen)\<close> returns the error it throws, if any, and the commands the
  fresh printer received.
\<close>

definition printOrder :: "runtime \<Rightarrow> device \<Rightarrow> order \<Rightarrow> string \<Rightarrow> error option \<times> printer" where
  "printOrder rt dev ord kitchen =
     (let pr = [] in
      case isPrinterConnected dev of
        CheckRejected \<Rightarrow> (Some DeviceError, pr)
      | NotConnected \<Rightarrow> (Some ConnectionError, pr)
      | Connected \<Rightarrow>
          (let processedItems = preprocessOrderItems (orderItems ord);
               groupedSections = groupItemsByKitchen processedItems False;
               p1 = printRestaurantHeader pr ord;
               p2 = printOrderTypeHeader p1 ord kitchen;
               p3 = printPreorderInfo rt p2 ord kitchen;
               p4 = printOrderDetails rt p3 ord;
               p5 = printOrderItems rt p4 groupedSections;
               p6 = printTotals rt p5 ord;
               p7 = printFooter p6 ord kitchen;
               p8 = p7 @ [Cut];
               p9 = p8 @ [Execute]
           in if executeOk dev then (None, p9) else (Some DeviceError, p9)))"


section \<open>server.js\<close>

subsection \<open>The document store\<close>

text \<open>
  Firestore as a map from collection name and document id to the document's fields. Whether
  a call to it rejects is the environment's choice, given with the other answers an
  activation of \<^verbatim>\<open>processQueue\<close> waits for: the device each \<^verbatim>\<open>printOrder\<close> call meets
  (one call per kitchen tag), and the rejection of \<^verbatim>\<open>get\<close>, \<^verbatim>\<open>update\<close> and \<^verbatim>\<open>delete\<close>.
\<close>

datatype fieldValue = BoolV bool | StrV string | NumV real

type_synonym document = "string \<rightharpoonup> fieldValue"

type_synonym firestore = "string \<times> string \<rightharpoonup> document"

record responses =
  devices :: "string \<Rightarrow> device"
  getRejects :: bool
  updateRejects :: bool
  deleteRejects :: bool

text \<open>What an activation does that is visible outside it, in order.\<close>

datatype logMessage =
    PrintingOrder string
  | PrintCompleted string
  | MarkedPrinted string
  | OrderNotFound string string
  | UpdateError string
  | PrintFailed string error
  | RemovedFromQueue string bool
  | DeleteError

datatype effect =
    PrintOrder string "error option" printer
  | DocGet string string
  | DocUpdate string string
  | DocDelete string string
  | Console logMessage

subsection \<open>One activation of processQueue, after the dequeue\<close>

text \<open>
  The loop \<^verbatim>\<open>for (const kitchen of kitchens) await printOrder(order, kitchen)\<close>: the first
  call that throws ends the loop.
\<close>

fun printKitchens ::
  "runtime \<Rightarrow> (string \<Rightarrow> device) \<Rightarrow> order \<Rightarrow> string list \<Rightarrow> effect list \<times> error option" where
  "printKitchens rt devs ord [] = ([], None)"
| "printKitchens rt devs ord (kitchen # rest) =
     (case printOrder rt (devs kitchen) ord kitchen of
        (Some e, out) \<Rightarrow> ([PrintOrder kitchen (Some e) out], Some e)
      | (None, out) \<Rightarrow>
          (case printKitchens rt devs ord rest of
             (effs, r) \<Rightarrow> (PrintOrder kitchen None out # effs, r)))"

definition kitchensFor :: "order \<Rightarrow> string list" where
  "kitchensFor ord = (if orderType ord = TAKE_OUT then [KITCHEN_B, KITCHEN_A] else [''''])"

definition collectionNameFor :: "order \<Rightarrow> string" where
  "collectionNameFor ord = (if orderType ord = DINE_IN then ''dineInOrders'' else ''takeOutOrders'')"

text \<open>The inner \<^verbatim>\<open>try\<close> that follows the prints: its \<^verbatim>\<open>catch\<close> only logs.\<close>

definition markPrinted :: "responses \<Rightarrow> firestore \<Rightarrow> order \<Rightarrow> firestore \<times> effect list" where
  "markPrinted env db ord =
     (let collectionName = collectionNameFor ord;
          ref = (collectionName, orderId ord)
      in if getRejects env
         then (db, [DocGet collectionName (orderId ord), Console (UpdateError (orderId ord))])
         else
           (case db ref of
              None \<Rightarrow>
                (db, [DocGet collectionName (orderId ord),
                      Console (OrderNotFound (orderId ord) collectionName)])
            | Some doc \<Rightarrow>
                if updateRejects env
                then (db, [DocGet collectionName (orderId ord),
                           DocUpdate collectionName (orderId ord),
                           Console (UpdateError (orderId ord))])
                else (db(ref \<mapsto> doc(''printed'' \<mapsto> BoolV True)),
                      [DocGet collectionName (orderId ord),
                       DocUpdate collectionName (orderId ord),
                       Console (MarkedPrinted (orderId ord))])))"

text \<open>The \<^verbatim>\<open>try\<close> inside \<^verbatim>\<open>finally\<close>; \<^verbatim>\<open>if (order.printId)\<close> is a truthiness test.\<close>

definition removeFromQueue ::
  "responses \<Rightarrow> firestore \<Rightarrow> order \<Rightarrow> bool \<Rightarrow> firestore \<times> effect list" where
  "removeFromQueue env db ord printSucceeded =
     (case printId ord of
        None \<Rightarrow> (db, [])
      | Some pid \<Rightarrow>
          if pid = '''' then (db, [])
          else if deleteRejects env
          then (db, [DocDelete ''printQueue'' pid, Console DeleteError])
          else (db((''printQueue'', pid) := None),
                [DocDelete ''printQueue'' pid,
                 Console (RemovedFromQueue (orderId ord) printSucceeded)]))"

record outcome =
  store :: firestore
  effects :: "effect list"
  printSucceeded :: bool

definition processJob :: "runtime \<Rightarrow> responses \<Rightarrow> firestore \<Rightarrow> order \<Rightarrow> outcome" where
  "processJob rt env db ord =
     (case printKitchens rt (devices env) ord (kitchensFor ord) of
        (prints, None) \<Rightarrow>
          (case markPrinted env db ord of
             (db1, updates) \<Rightarrow>
               (case removeFromQueue env db1 ord True of
                  (db2, deletes) \<Rightarrow>
                    \<lparr>store = db2,
                     effects = [Console (PrintingOrder (orderId ord))] @ prints
                       @ [Console (PrintCompleted (orderId ord))] @ updates @ deletes,
                     printSucceeded = True\<rparr>))
      | (prints, Some e) \<Rightarrow>
          (case removeFromQueue env db ord False of
             (db2, deletes) \<Rightarrow>
               \<lparr>store = db2,
                effects = [Console (PrintingOrder (orderId ord))] @ prints
                  @ [Console (PrintFailed (orderId ord) e)] @ deletes,
                printSucceeded = False\<rparr>))"

subsection \<open>The queue and its scheduling\<close>

text \<open>
  The module state is \<^verbatim>\<open>printQueue\<close> and \<^verbatim>\<open>isPrinting\<close>. \<open>inFlight\<close> is the order held by the
  one suspended activation, \<open>firestoreDb\<close> the store, and \<open>history\<close> a record of what
  happened: \<open>Begin\<close> when an activation dequeues an order, its effects, and \<open>End\<close> when its
  \<^verbatim>\<open>finally\<close> block has cleared \<^verbatim>\<open>isPrinting\<close>.

  JavaScript runs one callback at a time. An activation is suspended at its awaits; the
  only other code of the process that can run meanwhile is the snapshot callback, which
  appends to \<^verbatim>\<open>printQueue\<close> and calls \<^verbatim>\<open>processQueue\<close>. So an activation is two steps here:
  the synchronous dequeue, and \<open>settle\<close>, in which every call it awaits has answered and
  it runs to the end of \<^verbatim>\<open>finally\<close>, where it calls \<^verbatim>\<open>processQueue\<close> again. Its effects are
  entered in the history at that second step.
\<close>

datatype entry = Begin order | Effect effect | End order

record server =
  printQueue :: "order list"
  isPrinting :: bool
  inFlight :: "order option"
  firestoreDb :: firestore
  history :: "entry list"

definition processQueue :: "server \<Rightarrow> server" where
  "processQueue s =
     (if isPrinting s \<or> length (printQueue s) = 0 then s
      else
        (case printQueue s of
           [] \<Rightarrow> s
         | ord # rest \<Rightarrow>
             s\<lparr>isPrinting := True, printQueue := rest, inFlight := Some ord,
               history := history s @ [Begin ord]\<rparr>))"

definition settle :: "runtime \<Rightarrow> responses \<Rightarrow> server \<Rightarrow> server" where
  "settle rt env s =
     (case inFlight s of
        None \<Rightarrow> s
      | Some ord \<Rightarrow>
          (let r = processJob rt env (firestoreDb s) ord
           in processQueue
                (s\<lparr>firestoreDb := store r,
                   history := history s @ map Effect (effects r) @ [End ord],
                   isPrinting := False, inFlight := None\<rparr>)))"

text \<open>
  The snapshot callback: each changed document's data, with the document id attached as
  \<^verbatim>\<open>printId\<close>, is pushed and \<^verbatim>\<open>processQueue\<close> is called. The callback returns at once
  when \<^verbatim>\<open>snapshot.empty\<close> is set, that is when the collection holds no document.
\<close>

definition attachPrintId :: "string \<times> order \<Rightarrow> order" where
  "attachPrintId change = (snd change)\<lparr>printId := Some (fst change)\<rparr>"

definition enqueue :: "server \<Rightarrow> string \<times> order \<Rightarrow> server" where
  "enqueue s change = processQueue (s\<lparr>printQueue := printQueue s @ [attachPrintId change]\<rparr>)"

definition onSnapshot :: "bool \<Rightarrow> (string \<times> order) list \<Rightarrow> server \<Rightarrow> server" where
  "onSnapshot isEmpty docChanges s = (if isEmpty then s else foldl enqueue s docChanges)"

datatype event = Snapshot bool "(string \<times> order) list" | Settle responses

fun step :: "runtime \<Rightarrow> server \<Rightarrow> event \<Rightarrow> server" where
  "step rt s (Snapshot isEmpty docChanges) = onSnapshot isEmpty docChanges s"
| "step rt s (Settle env) = settle rt env s"

definition run :: "runtime \<Rightarrow> server \<Rightarrow> event list \<Rightarrow> server" where
  "run rt s evs = foldl (step rt) s evs"

definition startup :: "firestore \<Rightarrow> server" where
  "startup db =
     \<lparr>printQueue = [], isPrinting = False, inFlight = None, firestoreDb = db, history = []\<rparr>"


section \<open>preprocessOrderItem on the object heap\<close>

text \<open>
  \<open>preprocessOrderItem\<close> above computes with values. Whether the function writes to the
  object it is given is a question about objects, so here is the same function once more,
  statement by statement, on a heap: a value is a primitive or a reference, a cell is an
  object (its properties) or an array (its elements), an address is an index into the list
  of cells, and allocation appends a cell.
\<close>

type_synonym addr = nat

datatype jsval = JUndefined | JNull | JBool bool | JNum int | JStr string | JRef addr

datatype cell = Obj "string \<rightharpoonup> jsval" | Arr "jsval list"

type_synonym heap = "cell list"

datatype jsError = TypeError

definition cellAt :: "heap \<Rightarrow> addr \<Rightarrow> cell option" where
  "cellAt h a = (if a < length h then Some (h ! a) else None)"

definition allocate :: "heap \<Rightarrow> cell \<Rightarrow> heap \<times> addr" where
  "allocate h c = (h @ [c], length h)"

text \<open>
  \<^verbatim>\<open>v.f\<close> for the properties read here (\<^verbatim>\<open>name\<close> and \<^verbatim>\<open>quantity\<close> of an option): a type error
  on null and undefined, undefined on any other value that has no such property.
\<close>

definition getProp :: "heap \<Rightarrow> jsval \<Rightarrow> string \<Rightarrow> jsError + jsval" where
  "getProp h v f =
     (case v of
        JUndefined \<Rightarrow> Inl TypeError
      | JNull \<Rightarrow> Inl TypeError
      | JRef a \<Rightarrow>
          (case cellAt h a of
             Some (Obj m) \<Rightarrow> Inr (case m f of Some x \<Rightarrow> x | None \<Rightarrow> JUndefined)
           | _ \<Rightarrow> Inr JUndefined)
      | _ \<Rightarrow> Inr JUndefined)"

text \<open>\<^verbatim>\<open>processed.f\<close> and \<^verbatim>\<open>processed.f = v\<close>, where \<^verbatim>\<open>processed\<close> is the object at \<open>p\<close>.\<close>

definition readProp :: "heap \<Rightarrow> addr \<Rightarrow> string \<Rightarrow> jsval" where
  "readProp h p f =
     (case cellAt h p of
        Some (Obj m) \<Rightarrow> (case m f of Some x \<Rightarrow> x | None \<Rightarrow> JUndefined)
      | _ \<Rightarrow> JUndefined)"

definition writeProp :: "heap \<Rightarrow> addr \<Rightarrow> string \<Rightarrow> jsval \<Rightarrow> heap" where
  "writeProp h p f v =
     (case cellAt h p of
        Some (Obj m) \<Rightarrow> h[p := Obj (m(f \<mapsto> v))]
      | _ \<Rightarrow> h)"

text \<open>The elements of \<^verbatim>\<open>processed.options\<close> when \<^verbatim>\<open>Array.isArray\<close> holds of it.\<close>

definition optionsArray :: "heap \<Rightarrow> addr \<Rightarrow> jsval list option" where
  "optionsArray h p =
     (case readProp h p ''options'' of
        JRef b \<Rightarrow> (case cellAt h b of Some (Arr xs) \<Rightarrow> Some xs | _ \<Rightarrow> None)
      | _ \<Rightarrow> None)"

definition truthy :: "jsval \<Rightarrow> bool" where
  "truthy v =
     (case v of
        JUndefined \<Rightarrow> False
      | JNull \<Rightarrow> False
      | JBool b \<Rightarrow> b
      | JNum n \<Rightarrow> n \<noteq> 0
      | JStr s \<Rightarrow> s \<noteq> ''''
      | JRef a \<Rightarrow> True)"

text \<open>
  The conversions the language applies in a template literal and in the comparisons
  \<^verbatim>\<open>v > 1\<close> and \<^verbatim>\<open>v <= 1\<close>. They read the heap and do not write it.
\<close>

record coercions =
  toStr :: "heap \<Rightarrow> jsval \<Rightarrow> string"
  greater1 :: "heap \<Rightarrow> jsval \<Rightarrow> bool"
  lessEq1 :: "heap \<Rightarrow> jsval \<Rightarrow> bool"

text \<open>\<^verbatim>\<open>Array.prototype.find\<close> with a predicate that may throw.\<close>

fun findFirst :: "(jsval \<Rightarrow> jsError + bool) \<Rightarrow> jsval list \<Rightarrow> jsError + jsval" where
  "findFirst P [] = Inr JUndefined"
| "findFirst P (v # vs) =
     (case P v of
        Inl e \<Rightarrow> Inl e
      | Inr b \<Rightarrow> if b then Inr v else findFirst P vs)"

definition isMainOptionH :: "heap \<Rightarrow> jsval \<Rightarrow> jsError + bool" where
  "isMainOptionH h v =
     (case getProp h v ''name'' of
        Inl e \<Rightarrow> Inl e
      | Inr n \<Rightarrow> Inr (n \<noteq> JStr EGG_ROLL \<and> n \<noteq> JStr SPRING_ROLL))"

definition isEggSpringOptionH :: "coercions \<Rightarrow> heap \<Rightarrow> jsval \<Rightarrow> jsError + bool" where
  "isEggSpringOptionH co h v =
     (case getProp h v ''name'' of
        Inl e \<Rightarrow> Inl e
      | Inr n \<Rightarrow>
          if n = JStr EGG_ROLL \<or> n = JStr SPRING_ROLL
          then (case getProp h v ''quantity'' of
                  Inl e \<Rightarrow> Inl e
                | Inr q \<Rightarrow> Inr (\<not> truthy q \<or> lessEq1 co h q))
          else Inr False)"

definition isRiceNoodleOptionH :: "heap \<Rightarrow> jsval \<Rightarrow> jsError + bool" where
  "isRiceNoodleOptionH h v =
     (case getProp h v ''name'' of
        Inl e \<Rightarrow> Inl e
      | Inr n \<Rightarrow> Inr (n = JStr RICE \<or> n = JStr NOODLES))"

text \<open>
  The two assignments every rule makes when it has found an option:
  \<^verbatim>\<open>processed.name = `${processed.name}/${suffix}`\<close> and
  \<^verbatim>\<open>processed.options = processed.options.filter((opt) => opt !== found)\<close>, where \<^verbatim>\<open>filter\<close>
  builds a new array.
\<close>

definition consume :: "coercions \<Rightarrow> heap \<Rightarrow> addr \<Rightarrow> jsval list \<Rightarrow> jsval \<Rightarrow> string \<Rightarrow> heap" where
  "consume co h p xs found sfx =
     (let h1 = writeProp h p ''name'' (JStr (toStr co h (readProp h p ''name'') @ ''/'' @ sfx));
          (h2, b) = allocate h1 (Arr (filter (\<lambda>v. v \<noteq> found) xs))
      in writeProp h2 p ''options'' (JRef b))"

text \<open>
  Each rule returns the heap and the error it throws, if any. Calling \<^verbatim>\<open>find\<close> on
  something that is not an array is a type error.
\<close>

definition specialRuleH :: "coercions \<Rightarrow> heap \<Rightarrow> addr \<Rightarrow> heap \<times> jsError option" where
  "specialRuleH co h p =
     (if readProp h p ''name'' = JStr SPECIAL_ITEM then
        (case optionsArray h p of
           None \<Rightarrow> (h, Some TypeError)
         | Some xs \<Rightarrow>
             (case findFirst (isMainOptionH h) xs of
                Inl e \<Rightarrow> (h, Some e)
              | Inr mainOption \<Rightarrow>
                  if truthy mainOption then
                    (case getProp h mainOption ''name'' of
                       Inl e \<Rightarrow> (h, Some e)
                     | Inr n \<Rightarrow> (consume co h p xs mainOption (toStr co h n), None))
                  else (h, None)))
      else (h, None))"

definition eggSpringRuleH :: "coercions \<Rightarrow> heap \<Rightarrow> addr \<Rightarrow> heap \<times> jsError option" where
  "eggSpringRuleH co h p =
     (case optionsArray h p of
        None \<Rightarrow> (h, Some TypeError)
      | Some xs \<Rightarrow>
          (case findFirst (isEggSpringOptionH co h) xs of
             Inl e \<Rightarrow> (h, Some e)
           | Inr eggSpringOption \<Rightarrow>
               if truthy eggSpringOption then
                 (case getProp h eggSpringOption ''name'' of
                    Inl e \<Rightarrow> (h, Some e)
                  | Inr n \<Rightarrow>
                      (consume co h p xs eggSpringOption
                         (if n = JStr EGG_ROLL then ''ER'' else ''SP''), None))
               else (h, None)))"

definition riceNoodleRuleH :: "coercions \<Rightarrow> heap \<Rightarrow> addr \<Rightarrow> heap \<times> jsError option" where
  "riceNoodleRuleH co h p =
     (case optionsArray h p of
        None \<Rightarrow> (h, Some TypeError)
      | Some xs \<Rightarrow>
          (case findFirst (isRiceNoodleOptionH h) xs of
             Inl e \<Rightarrow> (h, Some e)
           | Inr riceNoodleOption \<Rightarrow>
               if truthy riceNoodleOption then
                 (case getProp h riceNoodleOption ''name'' of
                    Inl e \<Rightarrow> (h, Some e)
                  | Inr n \<Rightarrow>
                      (consume co h p xs riceNoodleOption
                         (if n = JStr RICE then ''Rice'' else ''ND''), None))
               else (h, None)))"

definition setDisplayName :: "coercions \<Rightarrow> heap \<Rightarrow> addr \<Rightarrow> heap" where
  "setDisplayName co h p =
     writeProp h p ''displayName''
       (if greater1 co h (readProp h p ''quantity'')
        then JStr (toStr co h (readProp h p ''quantity'') @ ''x ''
                   @ toStr co h (readProp h p ''name''))
        else readProp h p ''name'')"

text \<open>
  \<^verbatim>\<open>preprocessOrderItem(item)\<close> for the item object at address \<open>item\<close>: the heap afterwards,
  and the address of the object returned or the error thrown. The spread
  \<^verbatim>\<open>{ ...item }\<close> allocates an object with the item's properties; a property that holds a
  reference is copied as that reference.
\<close>

definition preprocessOrderItemH :: "coercions \<Rightarrow> heap \<Rightarrow> addr \<Rightarrow> heap \<times> (jsError + addr)" where
  "preprocessOrderItemH co h item =
     (let (h0, processed) =
            allocate h (Obj (case cellAt h item of Some (Obj m) \<Rightarrow> m | _ \<Rightarrow> Map.empty))
      in case optionsArray h0 processed of
           None \<Rightarrow> (setDisplayName co h0 processed, Inr processed)
         | Some xs \<Rightarrow>
             if length xs = 0 then (setDisplayName co h0 processed, Inr processed)
             else
               (case specialRuleH co h0 processed of
                  (h1, Some e) \<Rightarrow> (h1, Inl e)
                | (h1, None) \<Rightarrow>
                    (case eggSpringRuleH co h1 processed of
                       (h2, Some e) \<Rightarrow> (h2, Inl e)
                     | (h2, None) \<Rightarrow>
                         (case riceNoodleRuleH co h2 processed of
                            (h3, Some e) \<Rightarrow> (h3, Inl e)
                          | (h3, None) \<Rightarrow> (setDisplayName co h3 processed, Inr processed)))))"



text \<open>
  Reading the heap as values. An option object is seen as an \<open>opt\<close> when its \<^verbatim>\<open>name\<close> is a
  string and its \<^verbatim>\<open>quantity\<close> is absent or a number; prices play no part in
  \<open>preprocessOrderItem\<close> and are left out. An item object is seen as its name, its quantity
  and its options when the name is a string, the quantity is absent or a number, and
  \<^verbatim>\<open>options\<close> is absent or an array of such option objects.
\<close>

definition optView :: "heap \<Rightarrow> jsval \<Rightarrow> opt option" where
  "optView h v =
     (case getProp h v ''name'' of
        Inr (JStr s) \<Rightarrow>
          (case getProp h v ''quantity'' of
             Inr JUndefined \<Rightarrow> Some \<lparr>oname = s, oquantity = None, oprice = None\<rparr>
           | Inr (JNum q) \<Rightarrow> Some \<lparr>oname = s, oquantity = Some q, oprice = None\<rparr>
           | _ \<Rightarrow> None)
      | _ \<Rightarrow> None)"

definition optionsView :: "heap \<Rightarrow> jsval list \<Rightarrow> opt list option" where
  "optionsView h xs =
     (if \<forall>v \<in> set xs. optView h v \<noteq> None then Some (map (\<lambda>v. the (optView h v)) xs) else None)"

definition quantityView :: "jsval \<Rightarrow> int option option" where
  "quantityView v = (case v of JUndefined \<Rightarrow> Some None | JNum q \<Rightarrow> Some (Some q) | _ \<Rightarrow> None)"

definition itemView :: "heap \<Rightarrow> addr \<Rightarrow> (string \<times> int option \<times> opt list option) option" where
  "itemView h a =
     (case (cellAt h a, readProp h a ''name'', quantityView (readProp h a ''quantity'')) of
        (Some (Obj m), JStr nm, Some q) \<Rightarrow>
          (case readProp h a ''options'' of
             JUndefined \<Rightarrow> Some (nm, q, None)
           | JRef b \<Rightarrow>
               (case optionsArray h a of
                  Some xs \<Rightarrow>
                    (case optionsView h xs of
                       Some os \<Rightarrow> Some (nm, q, Some os)
                     | None \<Rightarrow> None)
                | None \<Rightarrow> None)
           | _ \<Rightarrow> None)
      | _ \<Rightarrow> None)"

text \<open>The conversions agree with the language on strings, numbers and undefined.\<close>

definition standard :: "coercions \<Rightarrow> bool" where
  "standard co =
     ((\<forall>h s. toStr co h (JStr s) = s) \<and>
      (\<forall>h n. greater1 co h (JNum n) = (n > 1)) \<and>
      (\<forall>h. \<not> greater1 co h JUndefined) \<and>
      (\<forall>h n. toStr co h (JNum n) = showInt n) \<and>
      (\<forall>h n. lessEq1 co h (JNum n) = (n \<le> 1)))"

text \<open>
  The object \<open>p\<close> under construction in heap \<open>g\<close>, which extends the caller's heap \<open>h0\<close>: it is
  a new object with name \<open>nm\<close>, quantity \<open>q\<close> and an options array \<open>ys\<close> of distinct option
  objects of the caller's.
\<close>

definition processedAt ::
  "heap \<Rightarrow> heap \<Rightarrow> addr \<Rightarrow> string \<Rightarrow> jsval \<Rightarrow> jsval list \<Rightarrow> bool" where
  "processedAt h0 g p nm q ys =
     (prefix h0 g \<and> length h0 \<le> p \<and> (\<exists>m. cellAt g p = Some (Obj m)) \<and>
      readProp g p ''name'' = JStr nm \<and> readProp g p ''quantity'' = q \<and>
      optionsArray g p = Some ys \<and> distinct ys \<and> (\<forall>v \<in> set ys. optView h0 v \<noteq> None))"


section \<open>Observations used in the statements\<close>

text \<open>All the items of a list of sections, section after section.\<close>

definition sectionItems :: "sect list \<Rightarrow> item list" where
  "sectionItems secs = concat (map items secs)"

text \<open>
  An item has a section when it is an appetizer, or is a to-go item and to-go items are not
  excluded, or is not a to-go item and names one of the four kitchens.
\<close>

definition routed :: "bool \<Rightarrow> item \<Rightarrow> bool" where
  "routed excludeTogo it =
     (appetizer it \<or> (togo it \<and> \<not> excludeTogo) \<or>
      (\<not> togo it \<and>
       kitchenType it \<in> {Some KITCHEN_A, Some KITCHEN_Z, Some KITCHEN_B, Some KITCHEN_C}))"

text \<open>The label of the one section whose predicate an item can satisfy.\<close>

definition sectionOf :: "item \<Rightarrow> string" where
  "sectionOf x =
     (if appetizer x then ''Appetizers''
      else if togo x then ''Togo Items''
      else (case kitchenType x of Some k \<Rightarrow> ''Kitchen '' @ k | None \<Rightarrow> []))"

text \<open>
  The object \<^verbatim>\<open>getOrderTotals\<close> returns, read as a tax breakdown: it has the keys
  \<^verbatim>\<open>subtotal\<close>, \<^verbatim>\<open>pst\<close>, \<^verbatim>\<open>gst\<close> and \<^verbatim>\<open>grandTotal\<close>, and no key \<^verbatim>\<open>total\<close>.
\<close>

definition asBreakDown :: "totals \<Rightarrow> taxBreakDownRec" where
  "asBreakDown t =
     \<lparr>tbTotal = None, tbPst = Some (pst t), tbGst = Some (gst t),
      tbGrandTotal = Some (grandTotal t)\<rparr>"

text \<open>The kitchen tags of the \<^verbatim>\<open>printOrder\<close> calls among some effects, in order.\<close>

fun emissionCalls :: "effect list \<Rightarrow> string list" where
  "emissionCalls [] = []"
| "emissionCalls (PrintOrder kitchen r out # es) = kitchen # emissionCalls es"
| "emissionCalls (e # es) = emissionCalls es"

definition touchesRecord :: "effect \<Rightarrow> bool" where
  "touchesRecord e = (case e of DocGet c i \<Rightarrow> True | DocUpdate c i \<Rightarrow> True | _ \<Rightarrow> False)"

definition isDelete :: "effect \<Rightarrow> bool" where
  "isDelete e = (case e of DocDelete c i \<Rightarrow> True | _ \<Rightarrow> False)"

text \<open>Every \<^verbatim>\<open>printOrder\<close> call the order needs returned without throwing.\<close>

definition allPrinted :: "runtime \<Rightarrow> responses \<Rightarrow> order \<Rightarrow> bool" where
  "allPrinted rt env ord = (snd (printKitchens rt (devices env) ord (kitchensFor ord)) = None)"

text \<open>The orders that snapshots pushed, and those an activation began and ended.\<close>

fun arrivals :: "event list \<Rightarrow> order list" where
  "arrivals [] = []"
| "arrivals (Snapshot isEmpty docChanges # evs) =
     (if isEmpty then [] else map attachPrintId docChanges) @ arrivals evs"
| "arrivals (Settle env # evs) = arrivals evs"

fun begun :: "entry list \<Rightarrow> order list" where
  "begun [] = []"
| "begun (Begin ord # h) = ord # begun h"
| "begun (e # h) = begun h"

fun ended :: "entry list \<Rightarrow> order list" where
  "ended [] = []"
| "ended (End ord # h) = ord # ended h"
| "ended (e # h) = ended h"

text \<open>The history without the effects: only where activations begin and end.\<close>

fun brackets :: "entry list \<Rightarrow> entry list" where
  "brackets [] = []"
| "brackets (Effect e # h) = brackets h"
| "brackets (b # h) = b # brackets h"

text \<open>A history in which every activation ends before the next begins.\<close>

fun serial :: "entry list \<Rightarrow> bool" where
  "serial [] = True"
| "serial [Begin ord] = True"
| "serial (Begin ord # End ord' # h) = (ord = ord' \<and> serial h)"
| "serial h = False"


text \<open>The order an activation holds, as a list.\<close>

definition current :: "server \<Rightarrow> order list" where
  "current s = (case inFlight s of Some ord \<Rightarrow> [ord] | None \<Rightarrow> [])"

text \<open>
  What holds of the server between callbacks, for the orders \<open>arr\<close> pushed so far: they are
  the ended ones, then the one in flight, then the waiting ones; the activations begun are
  the ended ones and the one in flight; the history pairs each \<open>Begin\<close> with its \<open>End\<close> before
  the next \<open>Begin\<close>; \<^verbatim>\<open>isPrinting\<close> is set exactly while an activation is suspended; and
  orders wait only while one is.
\<close>

definition queueInv0 :: "order list \<Rightarrow> server \<Rightarrow> bool" where
  "queueInv0 arr s =
     (ended (history s) @ current s @ printQueue s = arr \<and>
      begun (history s) = ended (history s) @ current s \<and>
      brackets (history s) =
        concat (map (\<lambda>ord. [Begin ord, End ord]) (ended (history s))) @ map Begin (current s) \<and>
      isPrinting s = (inFlight s \<noteq> None))"

definition queueInv :: "order list \<Rightarrow> server \<Rightarrow> bool" where
  "queueInv arr s = (queueInv0 arr s \<and> (\<not> isPrinting s \<longrightarrow> printQueue s = []))"

definition pending :: "server \<Rightarrow> nat" where
  "pending s = length (current s) + length (printQueue s)"


section \<open>Sample data\<close>

definition sampleRuntime :: runtime where
  "sampleRuntime =
     \<lparr>toLocaleString = (\<lambda>d opts. ''Nov 3, 2026''), toFixed2 = (\<lambda>r. ''0.00''),
      toNumber = (\<lambda>s. 0)\<rparr>"

definition sampleItem :: item where
  "sampleItem =
     \<lparr>name = ''Pho'', quantity = Some 1, price = Some 12, kitchenType = Some ''A'',
      appetizer = False, togo = False, options = None, extras = None, changes = None,
      instructions = None, displayName = Some ''Pho''\<rparr>"

definition dineInOrder :: order where
  "dineInOrder =
     \<lparr>orderId = ''o1'', orderType = ''Dine In'', isPreorder = False, paid = False,
      tableNumber = Some ''5'', customerName = None, phoneNumber = None, staffName = None,
      guests = Some 2, createdAt = None, preorderTime = None, readyTime = None,
      orderItems = Some [], total = Some 100, taxBreakDown = None, taxbreakdown = None,
      printId = Some ''q1''\<rparr>"

definition takeOutOrder :: order where
  "takeOutOrder =
     \<lparr>orderId = ''o2'', orderType = ''Take Out'', isPreorder = False, paid = False,
      tableNumber = None, customerName = Some ''Jane'', phoneNumber = Some ''3067647799'',
      staffName = None, guests = None, createdAt = None, preorderTime = None,
      readyTime = None, orderItems = Some [], total = Some 20, taxBreakDown = None,
      taxbreakdown = None, printId = Some ''q2''\<rparr>"

definition sampleDb :: firestore where
  "sampleDb =
     [(''dineInOrders'', ''o1'') \<mapsto> [''printed'' \<mapsto> BoolV False],
      (''takeOutOrders'', ''o2'') \<mapsto> [''printed'' \<mapsto> BoolV False],
      (''printQueue'', ''q1'') \<mapsto> Map.empty,
      (''printQueue'', ''q2'') \<mapsto> Map.empty]"

definition printerDown :: responses where
  "printerDown =
     \<lparr>devices = (\<lambda>k. \<lparr>isPrinterConnected = NotConnected, executeOk = True\<rparr>),
      getRejects = False, updateRejects = False, deleteRejects = False\<rparr>"

definition allGood :: responses where
  "allGood =
     \<lparr>devices = (\<lambda>k. \<lparr>isPrinterConnected = Connected, executeOk = True\<rparr>),
      getRejects = False, updateRejects = False, deleteRejects = False\<rparr>"



text \<open>The conversions on numbers, strings and the other primitives.\<close>

definition plainCoercions :: coercions where
  "plainCoercions =
     \<lparr>toStr = (\<lambda>h v. case v of
                 JUndefined \<Rightarrow> ''undefined''
               | JNull \<Rightarrow> ''null''
               | JBool b \<Rightarrow> if b then ''true'' else ''false''
               | JNum n \<Rightarrow> showInt n
               | JStr s \<Rightarrow> s
               | JRef a \<Rightarrow> ''[object Object]''),
      greater1 = (\<lambda>h v. case v of JNum n \<Rightarrow> n > 1 | _ \<Rightarrow> False),
      lessEq1 = (\<lambda>h v. case v of JNum n \<Rightarrow> n \<le> 1 | JBool b \<Rightarrow> True | JNull \<Rightarrow> True
                        | _ \<Rightarrow> False)\<rparr>"

text \<open>
  The item \<^verbatim>\<open>{name: "#3", quantity: 2, options: [{name: "Egg Roll"}, {name: "Fried Rice"}]}\<close>
  at address 3, its array at 2 and the two options at 0 and 1.
\<close>

definition sampleHeap :: heap where
  "sampleHeap =
     [Obj [''name'' \<mapsto> JStr ''Egg Roll''],
      Obj [''name'' \<mapsto> JStr ''Fried Rice''],
      Arr [JRef 0, JRef 1],
      Obj [''name'' \<mapsto> JStr ''#3'', ''quantity'' \<mapsto> JNum 2, ''options'' \<mapsto> JRef 2]]"


section \<open>Properties\<close>

lemmas config_defs =
  KITCHEN_A_def KITCHEN_B_def KITCHEN_C_def KITCHEN_Z_def DINE_IN_def TAKE_OUT_def
  EGG_ROLL_def SPRING_ROLL_def RICE_def NOODLES_def SPECIAL_ITEM_def PST_RATE_def GST_RATE_def
  RESTAURANT_name_def RESTAURANT_address_def RESTAURANT_phone_def

subsection \<open>formatPhone\<close>

lemma slice_neg_end: "0 < k \<Longrightarrow> slice s 0 (Some (- int k)) = take (length s - k) s"
  by (auto simp: slice_def sliceIndex_def Let_def nat_diff_distrib' max_def)

lemma slice_neg_from: "0 < k \<Longrightarrow> slice s (- int k) None = drop (length s - k) s"
  by (auto simp: slice_def sliceIndex_def Let_def max_def nat_diff_distrib')

lemma slice_neg_both:
  "0 < j \<Longrightarrow> j < k \<Longrightarrow> k \<le> length s \<Longrightarrow>
   slice s (- int k) (Some (- int j)) = take (k - j) (drop (length s - k) s)"
  by (auto simp: slice_def sliceIndex_def Let_def max_def nat_diff_distrib' take_drop)

text \<open>
  C10. \<open>formatPhone\<close> returns the empty string for a null and for an empty argument. For any
  other string it keeps the digits \<open>d\<close> only; with more than 7 digits the result is the
  digits before the last seven, a space, the next three, a hyphen and the last four; with 7
  or fewer it is the digits before the last four, a hyphen and the last four (all the
  digits after the hyphen when there are fewer than four).
\<close>

theorem formatPhone_spec:
  "formatPhone None = '''' \<and> formatPhone (Some '''') = '''' \<and>
   (p \<noteq> '''' \<longrightarrow>
     (let d = filter isDigit p; n = length d in
        (\<forall>c \<in> set d. isDigit c) \<and>
        formatPhone (Some p) =
          (if 7 < n
           then take (n - 7) d @ '' '' @ take 3 (drop (n - 7) d) @ ''-'' @ drop (n - 4) d
           else take (n - 4) d @ ''-'' @ drop (n - 4) d)))"
proof -
  have a: "formatPhone None = ''''" by (simp add: formatPhone_def)
  have b: "formatPhone (Some '''') = ''''" by (simp add: formatPhone_def)
  have s7: "\<And>s. slice s 0 (Some (- 7)) = take (length s - 7) s"
    using slice_neg_end [of 7] by simp
  have s4: "\<And>s. slice s 0 (Some (- 4)) = take (length s - 4) s"
    using slice_neg_end [of 4] by simp
  have d4: "\<And>s. slice s (- 4) None = drop (length s - 4) s"
    using slice_neg_from [of 4] by simp
  have m: "\<And>s. 7 < length s \<Longrightarrow> slice s (- 7) (Some (- 4)) = take 3 (drop (length s - 7) s)"
    using slice_neg_both [of 4 7] by simp
  have c: "p \<noteq> '''' \<Longrightarrow> formatPhone (Some p) =
          (let d = filter isDigit p; n = length d in if 7 < n
           then take (n - 7) d @ '' '' @ take 3 (drop (n - 7) d) @ ''-'' @ drop (n - 4) d
           else take (n - 4) d @ ''-'' @ drop (n - 4) d)"
    by (simp add: formatPhone_def Let_def s7 s4 d4 m)
  show ?thesis using a b c by (simp add: Let_def)
qed

theorem formatPhone_spec_witness:
  "''3067647799'' \<noteq> '''' \<and> formatPhone (Some ''3067647799'') = ''306 764-7799''
   \<and> ''764-7799'' \<noteq> '''' \<and> formatPhone (Some ''764-7799'') = ''764-7799''"
  using formatPhone_spec [of "''3067647799''"] formatPhone_spec [of "''764-7799''"]
  by (simp add: isDigit_def Let_def)

subsection \<open>preprocessOrderItem\<close>

text \<open>
  C6. On an item named \<open>#3\<close> whose options are an Egg Roll without quantity followed by
  Fried Rice, the special-item rule takes Fried Rice, the egg-roll rule then takes Egg Roll
  from what is left, and the rice rule finds nothing: the name becomes
  \<open>#3/Fried Rice/ER\<close> and no option remains. The other fields of the item and of the two
  options are arbitrary.
\<close>

theorem preprocessOrderItem_special_example:
  "applySpecialRule (''#3'', [\<lparr>oname = ''Egg Roll'', oquantity = None, oprice = pe\<rparr>,
                              \<lparr>oname = ''Fried Rice'', oquantity = q, oprice = pf\<rparr>])
     = (''#3/Fried Rice'', [\<lparr>oname = ''Egg Roll'', oquantity = None, oprice = pe\<rparr>]) \<and>
   applyEggSpringRule (''#3/Fried Rice'', [\<lparr>oname = ''Egg Roll'', oquantity = None, oprice = pe\<rparr>])
     = (''#3/Fried Rice/ER'', []) \<and>
   applyRiceNoodleRule (''#3/Fried Rice/ER'', []) = (''#3/Fried Rice/ER'', []) \<and>
   name (preprocessOrderItem (it\<lparr>name := ''#3'', options :=
           Some [\<lparr>oname = ''Egg Roll'', oquantity = None, oprice = pe\<rparr>,
                 \<lparr>oname = ''Fried Rice'', oquantity = q, oprice = pf\<rparr>]\<rparr>)) = ''#3/Fried Rice/ER'' \<and>
   options (preprocessOrderItem (it\<lparr>name := ''#3'', options :=
           Some [\<lparr>oname = ''Egg Roll'', oquantity = None, oprice = pe\<rparr>,
                 \<lparr>oname = ''Fried Rice'', oquantity = q, oprice = pf\<rparr>]\<rparr>)) = Some []"
  by (simp add: preprocessOrderItem_def applySpecialRule_def applyEggSpringRule_def
      applyRiceNoodleRule_def isMainOption_def isEggSpringOption_def isRiceNoodleOption_def
      config_defs)


subsection \<open>groupItemsByKitchen\<close>

lemma kitchens_distinct:
  "KITCHEN_A \<noteq> KITCHEN_B" "KITCHEN_A \<noteq> KITCHEN_Z" "KITCHEN_A \<noteq> KITCHEN_C"
  "KITCHEN_B \<noteq> KITCHEN_Z" "KITCHEN_B \<noteq> KITCHEN_C" "KITCHEN_Z \<noteq> KITCHEN_C"
  by (simp_all add: config_defs)

lemma count_concat_nonempty:
  "count_list (concat (map items (filter (\<lambda>s. length (items s) > 0) secs))) x
   = count_list (concat (map items secs)) x"
  by (induction secs) auto

lemma count_list_filter: "count_list (filter P xs) x = (if P x then count_list xs x else 0)"
  by (induction xs) auto

lemma groupItemsByKitchen_count:
  "count_list (sectionItems (groupItemsByKitchen its ex)) x =
     (if routed ex x then count_list its x else 0)"
  unfolding sectionItems_def groupItemsByKitchen_def count_concat_nonempty
  using kitchens_distinct
  by (auto simp: allSections_def count_list_filter filterByKitchen_def isTogoItem_def routed_def)

lemma allSections_member:
  "s \<in> set (allSections its ex) \<Longrightarrow> x \<in> set (items s) \<Longrightarrow>
   x \<in> set its \<and> label s = sectionOf x"
  unfolding allSections_def Let_def
  by (cases ex) (auto simp: filterByKitchen_def isTogoItem_def sectionOf_def config_defs)

lemma labels_allSections:
  "map label (allSections its ex) =
     [''Appetizers'', ''Kitchen A'', ''Kitchen Z'', ''Kitchen B'', ''Kitchen C'']
     @ (if ex then [] else [''Togo Items''])"
  by (simp add: allSections_def)

lemma groupItemsByKitchen_labels:
  "subseq (map label (groupItemsByKitchen its ex))
     [''Appetizers'', ''Kitchen A'', ''Kitchen Z'', ''Kitchen B'', ''Kitchen C'', ''Togo Items'']"
proof -
  have "subseq (map label (groupItemsByKitchen its ex)) (map label (allSections its ex))"
    unfolding groupItemsByKitchen_def by (rule subseq_map) simp
  moreover have "subseq (map label (allSections its ex))
     ([''Appetizers'', ''Kitchen A'', ''Kitchen Z'', ''Kitchen B'', ''Kitchen C'']
      @ [''Togo Items''])"
    unfolding labels_allSections by (cases ex) simp_all
  ultimately show ?thesis using subseq_order.order_trans by fastforce
qed

lemma groupItemsByKitchen_distinct: "distinct (map label (groupItemsByKitchen its ex))"
proof -
  have "distinct (map label (allSections its ex))" unfolding labels_allSections by simp
  then show ?thesis unfolding groupItemsByKitchen_def by (rule distinct_map_filter)
qed

lemma groupItemsByKitchen_exclusive:
  assumes "s1 \<in> set (groupItemsByKitchen its ex)" and "s2 \<in> set (groupItemsByKitchen its ex)"
    and "x \<in> set (items s1)" and "x \<in> set (items s2)"
  shows "s1 = s2"
proof -
  have m1: "s1 \<in> set (allSections its ex)" and m2: "s2 \<in> set (allSections its ex)"
    using assms(1,2) by (simp_all add: groupItemsByKitchen_def)
  have "label s1 = sectionOf x" using allSections_member [OF m1 assms(3)] by simp
  moreover have "label s2 = sectionOf x" using allSections_member [OF m2 assms(4)] by simp
  ultimately have "label s1 = label s2" by simp
  moreover have "inj_on label (set (groupItemsByKitchen its ex))"
    using groupItemsByKitchen_distinct [of its ex] by (simp add: distinct_map)
  ultimately show ?thesis using assms(1,2) by (simp add: inj_on_def)
qed

lemma set_by_count: "(\<And>x. count_list xs x = (if P x then count_list ys x else 0)) \<Longrightarrow>
   set xs = {x \<in> set ys. P x}"
proof -
  assume a: "\<And>x. count_list xs x = (if P x then count_list ys x else 0)"
  have "x \<in> set xs \<longleftrightarrow> x \<in> set ys \<and> P x" for x
    using a [of x] count_list_0_iff [of xs x] count_list_0_iff [of ys x] by (auto split: if_splits)
  then show ?thesis by blast
qed

text \<open>
  C5, as stated, fails: an item that is neither an appetizer nor a to-go item and has no
  kitchen type (or one that is none of A, Z, B, C) is in no section, and with \<open>excludeTogo\<close>
  a to-go item is in none, so the sections do not cover the input.
\<close>

theorem groupItemsByKitchen_union_counterexample:
  "groupItemsByKitchen [sampleItem\<lparr>kitchenType := None\<rparr>] False = [] \<and>
   set (sectionItems (groupItemsByKitchen [sampleItem\<lparr>kitchenType := None\<rparr>] False))
     \<noteq> set [sampleItem\<lparr>kitchenType := None\<rparr>] \<and>
   groupItemsByKitchen [sampleItem\<lparr>togo := True\<rparr>] True = [] \<and>
   set (sectionItems (groupItemsByKitchen [sampleItem\<lparr>togo := True\<rparr>] True))
     \<noteq> set [sampleItem\<lparr>togo := True\<rparr>]"
  by (simp add: groupItemsByKitchen_def allSections_def sampleItem_def filterByKitchen_def
      isTogoItem_def sectionItems_def config_defs)

text \<open>
  C5, amended. For every list of items and either value of \<open>excludeTogo\<close>: no item is in two
  of the returned sections; the sections hold exactly the input items that have a section
  (\<open>routed\<close>), each as often as the input does, so they cover the whole input when every
  item has one; the labels run in the order Appetizers, Kitchen A, Kitchen Z, Kitchen B,
  Kitchen C, Togo Items; and no returned section is empty.
\<close>

theorem groupItemsByKitchen_partition:
  "(\<forall>s1 \<in> set (groupItemsByKitchen its ex). \<forall>s2 \<in> set (groupItemsByKitchen its ex).
      \<forall>x. x \<in> set (items s1) \<and> x \<in> set (items s2) \<longrightarrow> s1 = s2) \<and>
   (\<forall>x. count_list (sectionItems (groupItemsByKitchen its ex)) x =
          (if routed ex x then count_list its x else 0)) \<and>
   set (sectionItems (groupItemsByKitchen its ex)) = {x \<in> set its. routed ex x} \<and>
   ((\<forall>x \<in> set its. routed ex x) \<longrightarrow> set (sectionItems (groupItemsByKitchen its ex)) = set its) \<and>
   subseq (map label (groupItemsByKitchen its ex))
     [''Appetizers'', ''Kitchen A'', ''Kitchen Z'', ''Kitchen B'', ''Kitchen C'', ''Togo Items''] \<and>
   (\<forall>s \<in> set (groupItemsByKitchen its ex). items s \<noteq> [])"
proof -
  have e: "\<forall>s1 \<in> set (groupItemsByKitchen its ex). \<forall>s2 \<in> set (groupItemsByKitchen its ex).
      \<forall>x. x \<in> set (items s1) \<and> x \<in> set (items s2) \<longrightarrow> s1 = s2"
    using groupItemsByKitchen_exclusive by blast
  have u: "set (sectionItems (groupItemsByKitchen its ex)) = {x \<in> set its. routed ex x}"
    by (rule set_by_count) (rule groupItemsByKitchen_count)
  have n: "\<forall>s \<in> set (groupItemsByKitchen its ex). items s \<noteq> []"
    by (simp add: groupItemsByKitchen_def)
  from u have a: "(\<forall>x \<in> set its. routed ex x) \<longrightarrow>
      set (sectionItems (groupItemsByKitchen its ex)) = set its" by blast
  show ?thesis
    using e u n a groupItemsByKitchen_count groupItemsByKitchen_labels by blast
qed

theorem groupItemsByKitchen_partition_witness:
  "groupItemsByKitchen
     [sampleItem\<lparr>kitchenType := Some ''B''\<rparr>, sampleItem\<lparr>togo := True\<rparr>, sampleItem\<lparr>appetizer := True\<rparr>,
      sampleItem] False
   = [\<lparr>label = ''Appetizers'', items = [sampleItem\<lparr>appetizer := True\<rparr>]\<rparr>,
      \<lparr>label = ''Kitchen A'', items = [sampleItem]\<rparr>,
      \<lparr>label = ''Kitchen B'', items = [sampleItem\<lparr>kitchenType := Some ''B''\<rparr>]\<rparr>,
      \<lparr>label = ''Togo Items'', items = [sampleItem\<lparr>togo := True\<rparr>]\<rparr>] \<and>
   routed False (sampleItem\<lparr>kitchenType := Some ''B''\<rparr>) \<and> routed False (sampleItem\<lparr>togo := True\<rparr>) \<and>
   routed False (sampleItem\<lparr>appetizer := True\<rparr>) \<and> routed False sampleItem \<and>
   set (sectionItems (groupItemsByKitchen
     [sampleItem\<lparr>kitchenType := Some ''B''\<rparr>, sampleItem\<lparr>togo := True\<rparr>, sampleItem\<lparr>appetizer := True\<rparr>,
      sampleItem] False))
   = set [sampleItem\<lparr>kitchenType := Some ''B''\<rparr>, sampleItem\<lparr>togo := True\<rparr>,
          sampleItem\<lparr>appetizer := True\<rparr>, sampleItem]"
proof -
  let ?its = "[sampleItem\<lparr>kitchenType := Some ''B''\<rparr>, sampleItem\<lparr>togo := True\<rparr>,
               sampleItem\<lparr>appetizer := True\<rparr>, sampleItem]"
  have g: "groupItemsByKitchen ?its False
     = [\<lparr>label = ''Appetizers'', items = [sampleItem\<lparr>appetizer := True\<rparr>]\<rparr>,
        \<lparr>label = ''Kitchen A'', items = [sampleItem]\<rparr>,
        \<lparr>label = ''Kitchen B'', items = [sampleItem\<lparr>kitchenType := Some ''B''\<rparr>]\<rparr>,
        \<lparr>label = ''Togo Items'', items = [sampleItem\<lparr>togo := True\<rparr>]\<rparr>]"
    by (simp add: groupItemsByKitchen_def allSections_def sampleItem_def filterByKitchen_def
        isTogoItem_def config_defs)
  have r: "\<forall>x \<in> set ?its. routed False x"
    by (simp add: sampleItem_def routed_def config_defs)
  have u: "set (sectionItems (groupItemsByKitchen ?its False)) = set ?its"
    using groupItemsByKitchen_partition [of ?its False] r by blast
  show ?thesis using g r u by simp
qed

subsection \<open>getOrderTotals\<close>

text \<open>
  C7, as stated, fails: an order with \<open>total = 100\<close> and no breakdown gives subtotal 100,
  PST 6, GST 5 and grand total 111; with that record as its breakdown the second call
  finds no \<^verbatim>\<open>total\<close> key and returns subtotal 0.
\<close>

theorem getOrderTotals_roundtrip_counterexample:
  "getOrderTotals dineInOrder None = \<lparr>subtotal = 100, pst = 6, gst = 5, grandTotal = 111\<rparr> \<and>
   getOrderTotals
     (dineInOrder\<lparr>taxBreakDown := Some (asBreakDown (getOrderTotals dineInOrder None))\<rparr>) None
   = \<lparr>subtotal = 0, pst = 6, gst = 5, grandTotal = 111\<rparr>"
  by (simp add: getOrderTotals_def nullish_def asBreakDown_def dineInOrder_def config_defs Let_def)

text \<open>
  C7, amended. For every order and explicit subtotal \<open>f\<close>: with the returned record as the
  order's breakdown, a second call reproduces PST, GST and the grand total exactly, and its
  subtotal is \<open>f\<close>, or 0 when no \<open>f\<close> is given; with the returned subtotal also stored under
  the breakdown's \<^verbatim>\<open>total\<close> key, a second call returns the same record, whatever explicit
  subtotal it is given.
\<close>

theorem getOrderTotals_roundtrip:
  "getOrderTotals (ord\<lparr>taxBreakDown := Some (asBreakDown (getOrderTotals ord f))\<rparr>) f
     = (getOrderTotals ord f)\<lparr>subtotal := (case f of Some v \<Rightarrow> v | None \<Rightarrow> 0)\<rparr> \<and>
   getOrderTotals
     (ord\<lparr>taxBreakDown :=
        Some ((asBreakDown (getOrderTotals ord f))\<lparr>tbTotal := Some (subtotal (getOrderTotals ord f))\<rparr>)\<rparr>)
     f'
     = getOrderTotals ord f"
  by (simp add: getOrderTotals_def nullish_def asBreakDown_def Let_def split: option.splits)


subsection \<open>printOrder\<close>

text \<open>
  C8. When the connectivity check answers "not connected", \<open>printOrder\<close> fails with the
  connection error and the printer has received no command at all, for every order and
  kitchen tag. (When it answers "connected", the commands issued end with the cut and the
  execute, so the empty output is not an artefact.)
\<close>

theorem printOrder_not_connected:
  "(isPrinterConnected dev = NotConnected \<longrightarrow>
      printOrder rt dev ord kitchen = (Some ConnectionError, [])) \<and>
   (isPrinterConnected dev = Connected \<longrightarrow>
      (\<exists>cmds. snd (printOrder rt dev ord kitchen) = cmds @ [Cut, Execute]))"
  by (simp add: printOrder_def Let_def)

theorem printOrder_not_connected_witness:
  "isPrinterConnected (devices printerDown ''B'') = NotConnected \<and>
   printOrder sampleRuntime (devices printerDown ''B'') takeOutOrder ''B''
     = (Some ConnectionError, []) \<and>
   isPrinterConnected (devices allGood ''B'') = Connected \<and>
   snd (printOrder sampleRuntime (devices allGood ''B'') takeOutOrder ''B'') \<noteq> []"
  using printOrder_not_connected [of "devices printerDown ''B''" sampleRuntime takeOutOrder "''B''"]
    printOrder_not_connected [of "devices allGood ''B''" sampleRuntime takeOutOrder "''B''"]
  by (auto simp: printerDown_def allGood_def)

subsection \<open>One activation of processQueue\<close>

lemma printOrder_down:
  "isPrinterConnected dev = NotConnected \<Longrightarrow>
   printOrder rt dev ord k = (Some ConnectionError, [])"
  by (simp add: printOrder_def)

lemma printKitchens_no_delete: "filter isDelete (fst (printKitchens rt devs ord ks)) = []"
  by (induction ks) (auto simp: isDelete_def split: prod.splits option.splits)

lemma printKitchens_no_touch: "filter touchesRecord (fst (printKitchens rt devs ord ks)) = []"
  by (induction ks) (auto simp: touchesRecord_def split: prod.splits option.splits)

lemma markPrinted_no_delete: "filter isDelete (snd (markPrinted env db ord)) = []"
  by (auto simp: markPrinted_def isDelete_def Let_def split: option.splits)

lemma collection_not_queue: "collectionNameFor ord \<noteq> ''printQueue''"
  by (simp add: collectionNameFor_def)

lemma markPrinted_queue:
  "fst (markPrinted env db ord) (''printQueue'', q) = db (''printQueue'', q)"
  using collection_not_queue [of ord]
  by (auto simp: markPrinted_def Let_def split: option.splits)

lemma markPrinted_cases:
  "snd (markPrinted env db ord) =
     (let c = collectionNameFor ord; i = orderId ord in
      if getRejects env then [DocGet c i, Console (UpdateError i)]
      else if db (c, i) = None then [DocGet c i, Console (OrderNotFound i c)]
      else if updateRejects env then [DocGet c i, DocUpdate c i, Console (UpdateError i)]
      else [DocGet c i, DocUpdate c i, Console (MarkedPrinted i)])"
  by (auto simp: markPrinted_def Let_def split: option.splits)

lemma markPrinted_store:
  "fst (markPrinted env db ord) =
     (case db (collectionNameFor ord, orderId ord) of
        Some doc \<Rightarrow>
          if getRejects env \<or> updateRejects env then db
          else db((collectionNameFor ord, orderId ord) \<mapsto> doc(''printed'' \<mapsto> BoolV True))
      | None \<Rightarrow> db)"
  by (auto simp: markPrinted_def Let_def split: option.splits)

lemma removeFromQueue_some:
  "printId ord = Some pid \<Longrightarrow> pid \<noteq> '''' \<Longrightarrow>
   snd (removeFromQueue env db ord ok) =
     [DocDelete ''printQueue'' pid,
      Console (if deleteRejects env then DeleteError else RemovedFromQueue (orderId ord) ok)] \<and>
   fst (removeFromQueue env db ord ok) =
     (if deleteRejects env then db else db((''printQueue'', pid) := None))"
  by (simp add: removeFromQueue_def)

lemma removeFromQueue_none:
  "\<not> truthyS (printId ord) \<Longrightarrow> removeFromQueue env db ord ok = (db, [])"
  by (auto simp: removeFromQueue_def truthyS_def split: option.splits)

lemma removeFromQueue_no_touch:
  "filter touchesRecord (snd (removeFromQueue env db ord ok)) = []"
  by (simp add: removeFromQueue_def touchesRecord_def split: option.splits)

lemma removeFromQueue_record:
  "fst (removeFromQueue env db ord ok) (collectionNameFor ord', i) = db (collectionNameFor ord', i)"
  using collection_not_queue [of ord']
  by (simp add: removeFromQueue_def split: option.splits)

lemma processJob_effects:
  "effects (processJob rt env db ord) =
     (let pk = printKitchens rt (devices env) ord (kitchensFor ord) in
      case snd pk of
        None \<Rightarrow>
          [Console (PrintingOrder (orderId ord))] @ fst pk
          @ [Console (PrintCompleted (orderId ord))] @ snd (markPrinted env db ord)
          @ snd (removeFromQueue env (fst (markPrinted env db ord)) ord True)
      | Some e \<Rightarrow>
          [Console (PrintingOrder (orderId ord))] @ fst pk
          @ [Console (PrintFailed (orderId ord) e)] @ snd (removeFromQueue env db ord False))"
  by (simp add: processJob_def Let_def split: prod.splits option.splits)

lemma processJob_store:
  "store (processJob rt env db ord) =
     (if allPrinted rt env ord
      then fst (removeFromQueue env (fst (markPrinted env db ord)) ord True)
      else fst (removeFromQueue env db ord False))"
  by (auto simp: processJob_def allPrinted_def Let_def split: prod.splits option.splits)

lemma processJob_succeeded:
  "printSucceeded (processJob rt env db ord) = allPrinted rt env ord"
  by (auto simp: processJob_def allPrinted_def Let_def split: prod.splits option.splits)

lemma allPrinted_deleteRejects:
  "allPrinted rt (env\<lparr>deleteRejects := b\<rparr>) ord = allPrinted rt env ord"
  by (simp add: allPrinted_def)

lemma emissionCalls_append: "emissionCalls (xs @ ys) = emissionCalls xs @ emissionCalls ys"
  by (induction xs rule: emissionCalls.induct) simp_all

lemma markPrinted_no_calls: "emissionCalls (snd (markPrinted env db ord)) = []"
  by (simp add: markPrinted_def Let_def split: option.splits)

lemma removeFromQueue_no_calls: "emissionCalls (snd (removeFromQueue env db ord ok)) = []"
  by (simp add: removeFromQueue_def split: option.splits)

lemma processJob_calls:
  "emissionCalls (effects (processJob rt env db ord)) =
     emissionCalls (fst (printKitchens rt (devices env) ord (kitchensFor ord)))"
  by (simp add: processJob_effects Let_def emissionCalls_append markPrinted_no_calls
      removeFromQueue_no_calls split: option.splits)

lemma allPrinted_allGood: "allPrinted rt allGood ord"
  by (simp add: allPrinted_def allGood_def kitchensFor_def printOrder_def Let_def)

lemma allPrinted_printerDown: "\<not> allPrinted rt printerDown ord"
  by (simp add: allPrinted_def printerDown_def kitchensFor_def printOrder_down)

text \<open>
  C3, as stated, fails: when the first \<open>printOrder\<close> call of a take-out order throws (here the
  printer is not connected), the loop ends and the call for kitchen A is never made.
\<close>

theorem processJob_emission_calls_counterexample:
  "orderType takeOutOrder = TAKE_OUT \<and>
   emissionCalls (effects (processJob sampleRuntime printerDown sampleDb takeOutOrder)) = [''B'']"
  by (simp add: processJob_calls kitchensFor_def printOrder_down printerDown_def
      takeOutOrder_def config_defs)

text \<open>
  C3, amended. For a take-out order the activation calls \<open>printOrder\<close> with tag \<open>B\<close> first and,
  when that call returns without throwing, with tag \<open>A\<close> second, and makes no other
  emission call: two calls when the first succeeds, one when it throws. For an order of any
  other type it makes exactly one call, with the empty tag.
\<close>

theorem processJob_emission_calls:
  "(orderType ord = TAKE_OUT \<longrightarrow>
      emissionCalls (effects (processJob rt env db ord)) =
        (if fst (printOrder rt (devices env ''B'') ord ''B'') = None
         then [''B'', ''A''] else [''B''])) \<and>
   (orderType ord \<noteq> TAKE_OUT \<longrightarrow>
      emissionCalls (effects (processJob rt env db ord)) = [''''])"
  by (auto simp: processJob_calls kitchensFor_def KITCHEN_A_def KITCHEN_B_def
      split: prod.splits option.splits)

theorem processJob_emission_calls_witness:
  "orderType takeOutOrder = TAKE_OUT \<and>
   emissionCalls (effects (processJob sampleRuntime allGood sampleDb takeOutOrder))
     = [''B'', ''A''] \<and>
   orderType dineInOrder \<noteq> TAKE_OUT \<and>
   emissionCalls (effects (processJob sampleRuntime allGood sampleDb dineInOrder)) = ['''']"
  using processJob_emission_calls [of takeOutOrder sampleRuntime allGood sampleDb]
    processJob_emission_calls [of dineInOrder sampleRuntime allGood sampleDb]
  by (simp add: takeOutOrder_def dineInOrder_def allGood_def printOrder_def TAKE_OUT_def Let_def)

text \<open>
  C4. For every activation, whatever the devices and the store answer: when the order's
  \<open>printId\<close> is a non-empty string, deleting that entry of \<open>printQueue\<close> is the last thing
  the activation does, after every print and every access to the order's record; the entry
  is gone when the delete succeeds, and a rejected delete is only logged. When the order
  has no \<open>printId\<close> (absent, or the empty string, which the test \<^verbatim>\<open>if (order.printId)\<close>
  treats alike), no delete is attempted and \<open>printQueue\<close> is left as it was. Whether the
  delete is rejected never changes \<open>printSucceeded\<close>.
\<close>

theorem processJob_deletes_queue_entry:
  "(let r = processJob rt env db ord in
    (\<forall>pid. printId ord = Some pid \<and> pid \<noteq> '''' \<longrightarrow>
       (\<exists>before. effects r = before @ [DocDelete ''printQueue'' pid,
            Console (if deleteRejects env then DeleteError
                     else RemovedFromQueue (orderId ord) (printSucceeded r))]
          \<and> filter isDelete before = []) \<and>
       (\<not> deleteRejects env \<longrightarrow> store r (''printQueue'', pid) = None)) \<and>
    (\<not> truthyS (printId ord) \<longrightarrow>
       filter isDelete (effects r) = [] \<and>
       (\<forall>q. store r (''printQueue'', q) = db (''printQueue'', q))) \<and>
    (\<forall>b. printSucceeded (processJob rt (env\<lparr>deleteRejects := b\<rparr>) db ord) = printSucceeded r))"
proof -
  let ?r = "processJob rt env db ord"
  let ?pk = "printKitchens rt (devices env) ord (kitchensFor ord)"
  have A: "\<exists>before. effects ?r = before @ [DocDelete ''printQueue'' pid,
            Console (if deleteRejects env then DeleteError
                     else RemovedFromQueue (orderId ord) (printSucceeded ?r))]
          \<and> filter isDelete before = []"
    if p: "printId ord = Some pid" "pid \<noteq> ''''" for pid
  proof (cases "snd ?pk")
    case None
    then have ok: "printSucceeded ?r = True" by (simp add: processJob_succeeded allPrinted_def)
    let ?before = "[Console (PrintingOrder (orderId ord))] @ fst ?pk
         @ [Console (PrintCompleted (orderId ord))] @ snd (markPrinted env db ord)"
    have "effects ?r = ?before @ snd (removeFromQueue env (fst (markPrinted env db ord)) ord True)"
      using None by (simp add: processJob_effects Let_def)
    moreover have "filter isDelete ?before = []"
      by (simp add: printKitchens_no_delete markPrinted_no_delete isDelete_def)
    ultimately show ?thesis
      using removeFromQueue_some [OF p] ok by (intro exI [of _ ?before]) simp
  next
    case (Some e)
    then have ok: "printSucceeded ?r = False" by (simp add: processJob_succeeded allPrinted_def)
    let ?before = "[Console (PrintingOrder (orderId ord))] @ fst ?pk
         @ [Console (PrintFailed (orderId ord) e)]"
    have "effects ?r = ?before @ snd (removeFromQueue env db ord False)"
      using Some by (simp add: processJob_effects Let_def)
    moreover have "filter isDelete ?before = []"
      by (simp add: printKitchens_no_delete isDelete_def)
    ultimately show ?thesis
      using removeFromQueue_some [OF p] ok by (intro exI [of _ ?before]) simp
  qed
  have B: "store ?r (''printQueue'', pid) = None"
    if p: "printId ord = Some pid" "pid \<noteq> ''''" and d: "\<not> deleteRejects env" for pid
    using removeFromQueue_some [OF p] d by (simp add: processJob_store)
  have C: "filter isDelete (effects ?r) = [] \<and>
           (\<forall>q. store ?r (''printQueue'', q) = db (''printQueue'', q))"
    if n: "\<not> truthyS (printId ord)"
    using removeFromQueue_none [OF n]
    by (simp add: processJob_effects processJob_store Let_def printKitchens_no_delete
        markPrinted_no_delete markPrinted_queue isDelete_def split: option.splits)
  have D: "printSucceeded (processJob rt (env\<lparr>deleteRejects := b\<rparr>) db ord) = printSucceeded ?r"
    for b
    by (simp add: processJob_succeeded allPrinted_deleteRejects)
  show ?thesis unfolding Let_def using A B C D by blast
qed

theorem processJob_deletes_queue_entry_witness:
  "printId dineInOrder = Some ''q1'' \<and> \<not> deleteRejects allGood \<and>
   sampleDb (''printQueue'', ''q1'') \<noteq> None \<and>
   store (processJob sampleRuntime allGood sampleDb dineInOrder) (''printQueue'', ''q1'') = None \<and>
   store (processJob sampleRuntime printerDown sampleDb dineInOrder) (''printQueue'', ''q1'') = None \<and>
   \<not> truthyS (printId (dineInOrder\<lparr>printId := None\<rparr>)) \<and>
   filter isDelete
     (effects (processJob sampleRuntime allGood sampleDb (dineInOrder\<lparr>printId := None\<rparr>))) = []"
  using processJob_deletes_queue_entry [of sampleRuntime allGood sampleDb dineInOrder]
    processJob_deletes_queue_entry [of sampleRuntime printerDown sampleDb dineInOrder]
    processJob_deletes_queue_entry [of sampleRuntime allGood sampleDb "dineInOrder\<lparr>printId := None\<rparr>"]
  by (simp add: Let_def dineInOrder_def allGood_def printerDown_def truthyS_def sampleDb_def)


text \<open>
  C1, as stated, fails: when a print throws (here the printer is not connected), control
  passes to the outer \<^verbatim>\<open>catch\<close> and the activation neither reads nor updates the order's
  record, although the record exists; its \<open>printed\<close> flag stays false.
\<close>

theorem processJob_marks_printed_counterexample:
  "sampleDb (collectionNameFor dineInOrder, orderId dineInOrder)
     = Some [''printed'' \<mapsto> BoolV False] \<and>
   filter touchesRecord (effects (processJob sampleRuntime printerDown sampleDb dineInOrder)) = [] \<and>
   store (processJob sampleRuntime printerDown sampleDb dineInOrder)
     (collectionNameFor dineInOrder, orderId dineInOrder) = Some [''printed'' \<mapsto> BoolV False]"
  by (simp add: processJob_def kitchensFor_def printOrder_down printerDown_def dineInOrder_def
      removeFromQueue_def touchesRecord_def sampleDb_def collectionNameFor_def config_defs)

text \<open>
  C1, amended. The record of an order is the document with the order's id in
  \<open>dineInOrders\<close> for a dine-in order and in \<open>takeOutOrders\<close> otherwise. For every dequeued
  job whose required prints all succeeded, the activation reads that record and, when it
  exists, updates its \<open>printed\<close> flag to true; a missing record is logged and not updated; a
  rejected read or update is logged and leaves the record as it was; in each of these
  cases the job still counts as printed. When a print failed, the record is neither read
  nor updated.
\<close>

theorem processJob_marks_printed:
  "(let r = processJob rt env db ord; c = collectionNameFor ord; i = orderId ord in
    c = (if orderType ord = DINE_IN then ''dineInOrders'' else ''takeOutOrders'') \<and>
    printSucceeded r = allPrinted rt env ord \<and>
    (allPrinted rt env ord \<longrightarrow>
       filter touchesRecord (effects r) =
         (if \<not> getRejects env \<and> db (c, i) \<noteq> None
          then [DocGet c i, DocUpdate c i] else [DocGet c i]) \<and>
       (\<forall>doc. \<not> getRejects env \<and> \<not> updateRejects env \<and> db (c, i) = Some doc \<longrightarrow>
          store r (c, i) = Some (doc(''printed'' \<mapsto> BoolV True)) \<and>
          Console (MarkedPrinted i) \<in> set (effects r)) \<and>
       (\<not> getRejects env \<and> db (c, i) = None \<longrightarrow>
          store r (c, i) = None \<and> Console (OrderNotFound i c) \<in> set (effects r)) \<and>
       (getRejects env \<or> (db (c, i) \<noteq> None \<and> updateRejects env) \<longrightarrow>
          store r (c, i) = db (c, i) \<and> Console (UpdateError i) \<in> set (effects r))) \<and>
    (\<not> allPrinted rt env ord \<longrightarrow>
       filter touchesRecord (effects r) = [] \<and> store r (c, i) = db (c, i)))"
proof -
  let ?r = "processJob rt env db ord"
  let ?c = "collectionNameFor ord"
  let ?i = "orderId ord"
  have T: "filter touchesRecord (effects ?r) =
      (if allPrinted rt env ord then filter touchesRecord (snd (markPrinted env db ord)) else [])"
    by (simp add: processJob_effects Let_def allPrinted_def printKitchens_no_touch
        removeFromQueue_no_touch touchesRecord_def split: option.splits)
  have S: "store ?r (?c, ?i) =
      (if allPrinted rt env ord then fst (markPrinted env db ord) (?c, ?i) else db (?c, ?i))"
    by (simp add: processJob_store removeFromQueue_record)
  have M: "allPrinted rt env ord \<Longrightarrow> set (snd (markPrinted env db ord)) \<subseteq> set (effects ?r)"
    by (auto simp: processJob_effects Let_def allPrinted_def split: option.splits)
  have 1: "?c = (if orderType ord = DINE_IN then ''dineInOrders'' else ''takeOutOrders'')"
    by (simp add: collectionNameFor_def)
  have 2: "printSucceeded ?r = allPrinted rt env ord" by (rule processJob_succeeded)
  have 3: "filter touchesRecord (effects ?r) =
         (if \<not> getRejects env \<and> db (?c, ?i) \<noteq> None
          then [DocGet ?c ?i, DocUpdate ?c ?i] else [DocGet ?c ?i])"
    if "allPrinted rt env ord"
    using that by (simp add: T markPrinted_cases Let_def touchesRecord_def)
  have 4: "store ?r (?c, ?i) = Some (doc(''printed'' \<mapsto> BoolV True)) \<and>
          Console (MarkedPrinted ?i) \<in> set (effects ?r)"
    if "allPrinted rt env ord" "\<not> getRejects env" "\<not> updateRejects env" "db (?c, ?i) = Some doc"
    for doc
  proof -
    have "Console (MarkedPrinted ?i) \<in> set (snd (markPrinted env db ord))"
      using that by (simp add: markPrinted_cases Let_def)
    with M that(1) have "Console (MarkedPrinted ?i) \<in> set (effects ?r)" by blast
    moreover have "store ?r (?c, ?i) = Some (doc(''printed'' \<mapsto> BoolV True))"
      using that by (simp add: S markPrinted_store)
    ultimately show ?thesis by simp
  qed
  have 5: "store ?r (?c, ?i) = None \<and> Console (OrderNotFound ?i ?c) \<in> set (effects ?r)"
    if "allPrinted rt env ord" "\<not> getRejects env" "db (?c, ?i) = None"
  proof -
    have "Console (OrderNotFound ?i ?c) \<in> set (snd (markPrinted env db ord))"
      using that by (simp add: markPrinted_cases Let_def)
    with M that(1) have "Console (OrderNotFound ?i ?c) \<in> set (effects ?r)" by blast
    moreover have "store ?r (?c, ?i) = None"
      using that by (simp add: S markPrinted_store)
    ultimately show ?thesis by simp
  qed
  have 6: "store ?r (?c, ?i) = db (?c, ?i) \<and> Console (UpdateError ?i) \<in> set (effects ?r)"
    if "allPrinted rt env ord" "getRejects env \<or> (db (?c, ?i) \<noteq> None \<and> updateRejects env)"
  proof -
    have "Console (UpdateError ?i) \<in> set (snd (markPrinted env db ord))"
      using that by (auto simp: markPrinted_cases Let_def)
    with M that(1) have "Console (UpdateError ?i) \<in> set (effects ?r)" by blast
    moreover have "store ?r (?c, ?i) = db (?c, ?i)"
      using that by (auto simp: S markPrinted_store split: option.splits)
    ultimately show ?thesis by simp
  qed
  have 7: "filter touchesRecord (effects ?r) = [] \<and> store ?r (?c, ?i) = db (?c, ?i)"
    if "\<not> allPrinted rt env ord"
    using that by (simp add: T S)
  show ?thesis unfolding Let_def using 1 2 3 4 5 6 7 by blast
qed

theorem processJob_marks_printed_witness:
  "allPrinted sampleRuntime allGood dineInOrder \<and>
   \<not> getRejects allGood \<and> \<not> updateRejects allGood \<and>
   sampleDb (''dineInOrders'', ''o1'') = Some [''printed'' \<mapsto> BoolV False] \<and>
   store (processJob sampleRuntime allGood sampleDb dineInOrder) (''dineInOrders'', ''o1'')
     = Some [''printed'' \<mapsto> BoolV True] \<and>
   Map.empty (''dineInOrders'', ''o1'') = (None :: document option) \<and>
   Console (OrderNotFound ''o1'' ''dineInOrders'')
     \<in> set (effects (processJob sampleRuntime allGood Map.empty dineInOrder)) \<and>
   printSucceeded (processJob sampleRuntime allGood Map.empty dineInOrder) \<and>
   getRejects (allGood\<lparr>getRejects := True\<rparr>) \<and>
   Console (UpdateError ''o1'')
     \<in> set (effects (processJob sampleRuntime (allGood\<lparr>getRejects := True\<rparr>) sampleDb dineInOrder)) \<and>
   \<not> allPrinted sampleRuntime printerDown dineInOrder \<and>
   filter touchesRecord (effects (processJob sampleRuntime printerDown sampleDb dineInOrder)) = []"
proof -
  have c: "collectionNameFor dineInOrder = ''dineInOrders''" "orderId dineInOrder = ''o1''"
    by (simp_all add: collectionNameFor_def dineInOrder_def DINE_IN_def)
  have g: "allPrinted sampleRuntime allGood dineInOrder" by (rule allPrinted_allGood)
  have g': "allPrinted sampleRuntime (allGood\<lparr>getRejects := True\<rparr>) dineInOrder"
    using g by (simp add: allPrinted_def)
  have d: "\<not> allPrinted sampleRuntime printerDown dineInOrder" by (rule allPrinted_printerDown)
  have s: "sampleDb (''dineInOrders'', ''o1'') = Some [''printed'' \<mapsto> BoolV False]"
    by (simp add: sampleDb_def)
  have f: "\<not> getRejects allGood" "\<not> updateRejects allGood" by (simp_all add: allGood_def)
  have 1: "store (processJob sampleRuntime allGood sampleDb dineInOrder) (''dineInOrders'', ''o1'')
     = Some [''printed'' \<mapsto> BoolV True]"
    using processJob_marks_printed [of sampleRuntime allGood sampleDb dineInOrder] g s f
    by (simp add: Let_def c)
  have 2: "Console (OrderNotFound ''o1'' ''dineInOrders'')
       \<in> set (effects (processJob sampleRuntime allGood Map.empty dineInOrder)) \<and>
     printSucceeded (processJob sampleRuntime allGood Map.empty dineInOrder)"
    using processJob_marks_printed [of sampleRuntime allGood Map.empty dineInOrder] g f
    by (simp add: Let_def c)
  have 3: "Console (UpdateError ''o1'')
     \<in> set (effects (processJob sampleRuntime (allGood\<lparr>getRejects := True\<rparr>) sampleDb dineInOrder))"
    using processJob_marks_printed [of sampleRuntime "allGood\<lparr>getRejects := True\<rparr>" sampleDb dineInOrder] g'
    by (simp add: Let_def c)
  have 4: "filter touchesRecord (effects (processJob sampleRuntime printerDown sampleDb dineInOrder)) = []"
    using processJob_marks_printed [of sampleRuntime printerDown sampleDb dineInOrder] d
    by (simp add: Let_def)
  show ?thesis using g d s f 1 2 3 4 by simp
qed


subsection \<open>The queue\<close>

lemma arrivals_append: "arrivals (xs @ ys) = arrivals xs @ arrivals ys"
  by (induction xs rule: arrivals.induct) simp_all

lemma begun_append: "begun (xs @ ys) = begun xs @ begun ys"
  by (induction xs rule: begun.induct) simp_all

lemma ended_append: "ended (xs @ ys) = ended xs @ ended ys"
  by (induction xs rule: ended.induct) simp_all

lemma brackets_append: "brackets (xs @ ys) = brackets xs @ brackets ys"
  by (induction xs rule: brackets.induct) simp_all

lemma begun_effects: "begun (map Effect es) = []"
  by (induction es) simp_all

lemma ended_effects: "ended (map Effect es) = []"
  by (induction es) simp_all

lemma brackets_effects: "brackets (map Effect es) = []"
  by (induction es) simp_all

lemmas history_simps =
  begun_append ended_append brackets_append begun_effects ended_effects brackets_effects

lemma serial_pairs:
  "serial (concat (map (\<lambda>ord. [Begin ord, End ord]) xs) @ map Begin ys) = (length ys \<le> 1)"
proof (induction xs)
  case Nil
  show ?case
  proof (cases ys)
    case Nil
    then show ?thesis by simp
  next
    case (Cons y zs)
    then show ?thesis by (cases zs) simp_all
  qed
next
  case (Cons x xs)
  then show ?case by simp
qed

lemma queueInv_startup: "queueInv [] (startup db)"
  by (simp add: queueInv_def queueInv0_def startup_def current_def)

lemma queueInv_processQueue: "queueInv0 arr s \<Longrightarrow> queueInv arr (processQueue s)"
  by (cases "printQueue s")
    (auto simp: queueInv_def queueInv0_def processQueue_def current_def history_simps
      split: option.splits)

lemma queueInv_enqueue:
  assumes "queueInv arr s"
  shows "queueInv (arr @ [attachPrintId change]) (enqueue s change)"
proof -
  have "queueInv0 (arr @ [attachPrintId change])
          (s\<lparr>printQueue := printQueue s @ [attachPrintId change]\<rparr>)"
    using assms by (auto simp: queueInv_def queueInv0_def current_def)
  then show ?thesis unfolding enqueue_def by (rule queueInv_processQueue)
qed

lemma queueInv_pushes:
  "queueInv arr s \<Longrightarrow> queueInv (arr @ map attachPrintId docChanges) (foldl enqueue s docChanges)"
proof (induction docChanges arbitrary: arr s)
  case Nil
  then show ?case by simp
next
  case (Cons change rest)
  from Cons.prems have "queueInv (arr @ [attachPrintId change]) (enqueue s change)"
    by (rule queueInv_enqueue)
  from Cons.IH [OF this] show ?case by simp
qed

lemma queueInv_onSnapshot:
  "queueInv arr s \<Longrightarrow>
   queueInv (arr @ (if isEmpty then [] else map attachPrintId docChanges))
     (onSnapshot isEmpty docChanges s)"
  by (simp add: onSnapshot_def queueInv_pushes)

lemma queueInv_settle:
  assumes "queueInv arr s"
  shows "queueInv arr (settle rt env s)"
proof (cases "inFlight s")
  case None
  then show ?thesis using assms by (simp add: settle_def)
next
  case (Some ord)
  let ?r = "processJob rt env (firestoreDb s) ord"
  let ?s' = "s\<lparr>firestoreDb := store ?r,
               history := history s @ map Effect (effects ?r) @ [End ord],
               isPrinting := False, inFlight := None\<rparr>"
  have "queueInv0 arr ?s'"
    using assms Some by (auto simp: queueInv_def queueInv0_def current_def history_simps)
  then have "queueInv arr (processQueue ?s')" by (rule queueInv_processQueue)
  then show ?thesis using Some by (simp add: settle_def Let_def)
qed

lemma queueInv_step: "queueInv arr s \<Longrightarrow> queueInv (arr @ arrivals [e]) (step rt s e)"
  by (cases e) (simp_all add: queueInv_onSnapshot queueInv_settle)

lemma queueInv_run: "queueInv arr s \<Longrightarrow> queueInv (arr @ arrivals evs) (run rt s evs)"
proof (induction evs arbitrary: arr s)
  case Nil
  then show ?case by (simp add: run_def)
next
  case (Cons e evs)
  from Cons.prems have "queueInv (arr @ arrivals [e]) (step rt s e)" by (rule queueInv_step)
  from Cons.IH [OF this] have "queueInv ((arr @ arrivals [e]) @ arrivals evs) (run rt (step rt s e) evs)" .
  moreover have "arrivals [e] @ arrivals evs = arrivals (e # evs)"
    using arrivals_append [of "[e]" evs] by simp
  ultimately show ?case by (simp add: run_def)
qed

lemma pending_le: "queueInv arr s \<Longrightarrow> pending s \<le> length arr"
  by (auto simp: queueInv_def queueInv0_def pending_def)

lemma pending_0: "queueInv arr s \<Longrightarrow> pending s = 0 \<Longrightarrow>
  ended (history s) = arr \<and> begun (history s) = arr \<and> \<not> isPrinting s \<and> printQueue s = []"
  by (auto simp: queueInv_def queueInv0_def pending_def current_def split: option.splits)

lemma pending_processQueue:
  "inFlight s = None \<Longrightarrow> \<not> isPrinting s \<Longrightarrow> pending (processQueue s) = pending s"
  by (cases "printQueue s") (auto simp: processQueue_def pending_def current_def)

lemma pending_settle:
  assumes "queueInv arr s"
  shows "pending (settle rt env s) = pending s - 1"
proof (cases "inFlight s")
  case None
  then have "pending s = 0"
    using assms by (auto simp: queueInv_def queueInv0_def pending_def current_def)
  then show ?thesis using None by (simp add: settle_def)
next
  case (Some ord)
  let ?r = "processJob rt env (firestoreDb s) ord"
  let ?s' = "s\<lparr>firestoreDb := store ?r,
               history := history s @ map Effect (effects ?r) @ [End ord],
               isPrinting := False, inFlight := None\<rparr>"
  have "pending (processQueue ?s') = pending ?s'" by (rule pending_processQueue) simp_all
  moreover have "pending ?s' = pending s - 1" using Some by (simp add: pending_def current_def)
  ultimately show ?thesis using Some by (simp add: settle_def Let_def)
qed

lemma drain:
  "queueInv arr s \<Longrightarrow> pending s \<le> length envs \<Longrightarrow>
   pending (run rt s (map Settle envs)) = 0 \<and> queueInv arr (run rt s (map Settle envs))"
proof (induction envs arbitrary: s)
  case Nil
  then show ?case by (simp add: run_def)
next
  case (Cons env envs)
  have i: "queueInv arr (settle rt env s)" using Cons.prems(1) by (rule queueInv_settle)
  have "pending (settle rt env s) \<le> length envs"
    using Cons.prems pending_settle [of arr s rt env] by simp
  from Cons.IH [OF i this] show ?case by (simp add: run_def)
qed

text \<open>
  C2. Start the server and let snapshots and settlements of the suspended activation
  arrive in any order \<open>evs\<close>; \<open>arrivals evs\<close> are the N orders pushed, in push order. At every
  point the orders whose activation has ended, then the one in flight, then the waiting
  ones are exactly the pushed orders in push order, so activations begin in FIFO order and
  no order is begun twice or skipped; every activation ends before the next begins, and
  \<^verbatim>\<open>isPrinting\<close> is set exactly while one is suspended; when none is, nothing waits and all
  N have ended. And once the awaited calls have settled at least N more times, exactly the
  N pushed orders have been processed, each once, in push order, and the server is idle.
  That every awaited call does settle is the environment's part: a print that never
  returns leaves the server waiting.
\<close>

theorem dispatch_queue_fifo_exactly_once:
  "(let s = run rt (startup db) evs in
    ended (history s) @ current s @ printQueue s = arrivals evs \<and>
    begun (history s) = ended (history s) @ current s \<and>
    serial (brackets (history s)) \<and>
    isPrinting s = (inFlight s \<noteq> None) \<and>
    (\<not> isPrinting s \<longrightarrow> printQueue s = [] \<and> ended (history s) = arrivals evs) \<and>
    (\<forall>envs. length (arrivals evs) \<le> length envs \<longrightarrow>
       (let s' = run rt s (map Settle envs) in
        ended (history s') = arrivals evs \<and> begun (history s') = arrivals evs \<and>
        serial (brackets (history s')) \<and> \<not> isPrinting s' \<and> printQueue s' = [])))"
proof -
  let ?s = "run rt (startup db) evs"
  have inv: "queueInv (arrivals evs) ?s"
    using queueInv_run [OF queueInv_startup, of evs rt db] by simp
  have ser: "serial (brackets (history t))" if "queueInv arr t" for arr t
  proof -
    have "length (current t) \<le> 1" by (simp add: current_def split: option.splits)
    then show ?thesis using that serial_pairs [of "ended (history t)" "current t"]
      by (simp add: queueInv_def queueInv0_def)
  qed
  have 1: "ended (history ?s) @ current ?s @ printQueue ?s = arrivals evs"
    and 2: "begun (history ?s) = ended (history ?s) @ current ?s"
    and 4: "isPrinting ?s = (inFlight ?s \<noteq> None)"
    using inv by (simp_all add: queueInv_def queueInv0_def)
  have 5: "printQueue ?s = [] \<and> ended (history ?s) = arrivals evs" if "\<not> isPrinting ?s"
    using inv that by (auto simp: queueInv_def queueInv0_def current_def split: option.splits)
  have 6: "ended (history (run rt ?s (map Settle envs))) = arrivals evs \<and>
        begun (history (run rt ?s (map Settle envs))) = arrivals evs \<and>
        serial (brackets (history (run rt ?s (map Settle envs)))) \<and>
        \<not> isPrinting (run rt ?s (map Settle envs)) \<and> printQueue (run rt ?s (map Settle envs)) = []"
    if "length (arrivals evs) \<le> length envs" for envs
  proof -
    have "pending ?s \<le> length envs" using pending_le [OF inv] that by simp
    from drain [OF inv this, of rt]
    have p: "pending (run rt ?s (map Settle envs)) = 0"
      and i: "queueInv (arrivals evs) (run rt ?s (map Settle envs))" by simp_all
    show ?thesis using pending_0 [OF i p] ser [OF i] by simp
  qed
  show ?thesis unfolding Let_def using 1 2 ser [OF inv] 4 5 6 by blast
qed

theorem dispatch_queue_fifo_exactly_once_witness:
  "arrivals [Snapshot False [(''q1'', dineInOrder)], Snapshot False [(''q2'', takeOutOrder)], Settle allGood,
             Snapshot False [(''q3'', dineInOrder)]]
     = [dineInOrder, takeOutOrder, dineInOrder\<lparr>printId := Some ''q3''\<rparr>] \<and>
   length (arrivals [Snapshot False [(''q1'', dineInOrder)], Snapshot False [(''q2'', takeOutOrder)],
             Settle allGood, Snapshot False [(''q3'', dineInOrder)]]) \<le> length [printerDown, allGood, allGood] \<and>
   ended (history (run sampleRuntime
      (run sampleRuntime (startup sampleDb)
         [Snapshot False [(''q1'', dineInOrder)], Snapshot False [(''q2'', takeOutOrder)], Settle allGood,
          Snapshot False [(''q3'', dineInOrder)]])
      (map Settle [printerDown, allGood, allGood])))
     = [dineInOrder, takeOutOrder, dineInOrder\<lparr>printId := Some ''q3''\<rparr>]"
proof -
  let ?evs = "[Snapshot False [(''q1'', dineInOrder)], Snapshot False [(''q2'', takeOutOrder)], Settle allGood,
               Snapshot False [(''q3'', dineInOrder)]]"
  let ?envs = "[printerDown, allGood, allGood]"
  have a: "arrivals ?evs = [dineInOrder, takeOutOrder, dineInOrder\<lparr>printId := Some ''q3''\<rparr>]"
    by (simp add: attachPrintId_def dineInOrder_def takeOutOrder_def)
  then have l: "length (arrivals ?evs) \<le> length ?envs" by simp
  have "ended (history (run sampleRuntime (run sampleRuntime (startup sampleDb) ?evs)
           (map Settle ?envs))) = arrivals ?evs"
    using dispatch_queue_fifo_exactly_once [of sampleRuntime sampleDb ?evs] l
    unfolding Let_def by blast
  then show ?thesis using a l by simp
qed


subsection \<open>preprocessOrderItem leaves its argument alone\<close>

lemma prefix_allocate: "prefix h g \<Longrightarrow> prefix h (fst (allocate g c))"
  by (simp add: allocate_def)

lemma length_writeProp: "length (writeProp g p f v) = length g"
  by (simp add: writeProp_def split: option.splits cell.splits)

lemma prefix_writeProp:
  assumes "prefix h g" and "length h \<le> p"
  shows "prefix h (writeProp g p f v)"
proof -
  from assms(1) obtain zs where g: "g = h @ zs" by (auto simp: prefix_def)
  have "prefix h ((h @ zs)[p := c])" for c
    using assms(2) by (simp add: list_update_append)
  then show ?thesis unfolding g by (simp add: writeProp_def split: option.splits cell.splits)
qed

lemma prefix_consume:
  assumes "prefix h g" and "length h \<le> p"
  shows "prefix h (consume co g p xs found sfx)"
proof -
  let ?h1 = "writeProp g p ''name'' (JStr (toStr co g (readProp g p ''name'') @ ''/'' @ sfx))"
  let ?h2 = "?h1 @ [Arr (filter (\<lambda>v. v \<noteq> found) xs)]"
  have "prefix h ?h1" using assms by (rule prefix_writeProp)
  then have "prefix h ?h2" by (rule prefix_order.trans) simp
  then have "prefix h (writeProp ?h2 p ''options'' (JRef (length ?h1)))"
    using assms(2) by (rule prefix_writeProp)
  then show ?thesis by (simp add: consume_def allocate_def Let_def)
qed

lemma prefix_specialRuleH:
  "prefix h g \<Longrightarrow> length h \<le> p \<Longrightarrow> prefix h (fst (specialRuleH co g p))"
  by (simp add: specialRuleH_def prefix_consume split: option.splits sum.splits)

lemma prefix_eggSpringRuleH:
  "prefix h g \<Longrightarrow> length h \<le> p \<Longrightarrow> prefix h (fst (eggSpringRuleH co g p))"
  by (simp add: eggSpringRuleH_def prefix_consume split: option.splits sum.splits)

lemma prefix_riceNoodleRuleH:
  "prefix h g \<Longrightarrow> length h \<le> p \<Longrightarrow> prefix h (fst (riceNoodleRuleH co g p))"
  by (simp add: riceNoodleRuleH_def prefix_consume split: option.splits sum.splits)

lemma prefix_setDisplayName:
  "prefix h g \<Longrightarrow> length h \<le> p \<Longrightarrow> prefix h (setDisplayName co g p)"
  by (simp add: setDisplayName_def prefix_writeProp)

lemma prefix_preprocessOrderItemH: "prefix h (fst (preprocessOrderItemH co h item))"
proof -
  let ?m = "case cellAt h item of Some (Obj m) \<Rightarrow> m | _ \<Rightarrow> Map.empty"
  let ?h0 = "h @ [Obj ?m]"
  let ?p = "length h"
  have p0: "prefix h ?h0" by simp
  have p1: "prefix h (fst (specialRuleH co ?h0 ?p))"
    by (rule prefix_specialRuleH [OF p0]) simp
  have p2: "prefix h (fst (eggSpringRuleH co (fst (specialRuleH co ?h0 ?p)) ?p))"
    by (rule prefix_eggSpringRuleH [OF p1]) simp
  have p3: "prefix h (fst (riceNoodleRuleH co
      (fst (eggSpringRuleH co (fst (specialRuleH co ?h0 ?p)) ?p)) ?p))"
    by (rule prefix_riceNoodleRuleH [OF p2]) simp
  have d0: "prefix h (setDisplayName co ?h0 ?p)"
    by (rule prefix_setDisplayName [OF p0]) simp
  have d3: "prefix h (setDisplayName co (fst (riceNoodleRuleH co
      (fst (eggSpringRuleH co (fst (specialRuleH co ?h0 ?p)) ?p)) ?p)) ?p)"
    by (rule prefix_setDisplayName [OF p3]) simp
  show ?thesis
    using p1 p2 p3 d0 d3
    by (auto simp: preprocessOrderItemH_def allocate_def Let_def
        split: option.splits prod.splits)
qed

lemma result_preprocessOrderItemH:
  "snd (preprocessOrderItemH co h item) = Inr p \<Longrightarrow> p = length h"
  by (auto simp: preprocessOrderItemH_def allocate_def Let_def
      split: option.splits prod.splits if_splits)

lemma cellAt_prefix: "prefix h g \<Longrightarrow> cellAt h a = Some c \<Longrightarrow> cellAt g a = Some c"
  by (auto simp: cellAt_def prefix_def nth_append split: if_splits)

text \<open>
  C9. For every heap, conversions and item address: the heap after \<open>preprocessOrderItem\<close> is
  the heap before with new cells appended. So every cell that existed keeps its content:
  the item object keeps every property, its \<open>name\<close> and its \<open>options\<close> reference among them,
  the options array keeps its elements, and each option object is as it was. The object
  returned is a new cell.
\<close>

theorem preprocessOrderItem_frame:
  "(let r = preprocessOrderItemH co h item in
    prefix h (fst r) \<and>
    (\<forall>a c. cellAt h a = Some c \<longrightarrow> cellAt (fst r) a = Some c) \<and>
    (\<forall>m. cellAt h item = Some (Obj m) \<longrightarrow>
       (\<forall>f. readProp (fst r) item f = readProp h item f)) \<and>
    (\<forall>xs. optionsArray h item = Some xs \<longrightarrow> optionsArray (fst r) item = Some xs) \<and>
    (\<forall>p. snd r = Inr p \<longrightarrow> p = length h \<and> cellAt h p = None))"
proof -
  let ?r = "preprocessOrderItemH co h item"
  have pre: "prefix h (fst ?r)" by (rule prefix_preprocessOrderItemH)
  have keep: "cellAt (fst ?r) a = Some c" if "cellAt h a = Some c" for a c
    using pre that by (rule cellAt_prefix)
  have props: "readProp (fst ?r) item f = readProp h item f" if "cellAt h item = Some (Obj m)" for m f
    using keep [OF that] that by (simp add: readProp_def)
  have arr: "optionsArray (fst ?r) item = Some xs" if o: "optionsArray h item = Some xs" for xs
  proof -
    from o obtain b where b: "readProp h item ''options'' = JRef b" "cellAt h b = Some (Arr xs)"
      by (auto simp: optionsArray_def split: jsval.splits option.splits cell.splits)
    from b(1) obtain m where "cellAt h item = Some (Obj m)"
      by (auto simp: readProp_def split: option.splits cell.splits)
    from props [OF this] b(1) have "readProp (fst ?r) item ''options'' = JRef b" by simp
    with keep [OF b(2)] show ?thesis by (simp add: optionsArray_def)
  qed
  have fresh: "p = length h \<and> cellAt h p = None" if "snd ?r = Inr p" for p
    using result_preprocessOrderItemH [OF that] by (simp add: cellAt_def)
  show ?thesis unfolding Let_def using pre keep props arr fresh by blast
qed


lemma sample_run:
  "snd (preprocessOrderItemH plainCoercions sampleHeap 3) = Inr 4 \<and>
   readProp (fst (preprocessOrderItemH plainCoercions sampleHeap 3)) 4 ''name''
     = JStr ''#3/Fried Rice/ER'' \<and>
   readProp (fst (preprocessOrderItemH plainCoercions sampleHeap 3)) 4 ''displayName''
     = JStr ''2x #3/Fried Rice/ER'' \<and>
   optionsArray (fst (preprocessOrderItemH plainCoercions sampleHeap 3)) 4 = Some []"
  by (simp add: preprocessOrderItemH_def allocate_def sampleHeap_def optionsArray_def readProp_def
      cellAt_def specialRuleH_def eggSpringRuleH_def riceNoodleRuleH_def isMainOptionH_def
      isEggSpringOptionH_def isRiceNoodleOptionH_def getProp_def truthy_def consume_def
      writeProp_def setDisplayName_def plainCoercions_def showInt_def digitsOf.simps digitChar_def
      config_defs Let_def nth_append)

theorem preprocessOrderItem_frame_witness:
  "cellAt sampleHeap 3
     = Some (Obj [''name'' \<mapsto> JStr ''#3'', ''quantity'' \<mapsto> JNum 2, ''options'' \<mapsto> JRef 2]) \<and>
   optionsArray sampleHeap 3 = Some [JRef 0, JRef 1] \<and>
   snd (preprocessOrderItemH plainCoercions sampleHeap 3) = Inr 4 \<and>
   readProp (fst (preprocessOrderItemH plainCoercions sampleHeap 3)) 4 ''name''
     = JStr ''#3/Fried Rice/ER'' \<and>
   optionsArray (fst (preprocessOrderItemH plainCoercions sampleHeap 3)) 4 = Some [] \<and>
   readProp (fst (preprocessOrderItemH plainCoercions sampleHeap 3)) 3 ''name'' = JStr ''#3'' \<and>
   optionsArray (fst (preprocessOrderItemH plainCoercions sampleHeap 3)) 3
     = Some [JRef 0, JRef 1] \<and>
   cellAt (fst (preprocessOrderItemH plainCoercions sampleHeap 3)) 1
     = Some (Obj [''name'' \<mapsto> JStr ''Fried Rice''])"
proof -
  let ?h' = "fst (preprocessOrderItemH plainCoercions sampleHeap 3)"
  have c3: "cellAt sampleHeap 3
     = Some (Obj [''name'' \<mapsto> JStr ''#3'', ''quantity'' \<mapsto> JNum 2, ''options'' \<mapsto> JRef 2])"
    by (simp add: cellAt_def sampleHeap_def)
  have c1: "cellAt sampleHeap 1 = Some (Obj [''name'' \<mapsto> JStr ''Fried Rice''])"
    by (simp add: cellAt_def sampleHeap_def)
  have o3: "optionsArray sampleHeap 3 = Some [JRef 0, JRef 1]"
    by (simp add: optionsArray_def readProp_def cellAt_def sampleHeap_def)
  have n3: "readProp sampleHeap 3 ''name'' = JStr ''#3''"
    by (simp add: readProp_def cellAt_def sampleHeap_def)
  note frame = preprocessOrderItem_frame [of plainCoercions sampleHeap 3, unfolded Let_def]
  from frame c3 have "readProp ?h' 3 ''name'' = readProp sampleHeap 3 ''name''" by blast
  with n3 have 1: "readProp ?h' 3 ''name'' = JStr ''#3''" by simp
  from frame o3 have 2: "optionsArray ?h' 3 = Some [JRef 0, JRef 1]" by blast
  from frame c1 have 3: "cellAt ?h' 1 = Some (Obj [''name'' \<mapsto> JStr ''Fried Rice''])" by blast
  show ?thesis using c3 o3 1 2 3 sample_run by simp
qed


subsection \<open>The two models of preprocessOrderItem agree\<close>

lemma findFirst_find:
  assumes "\<And>v. v \<in> set ys \<Longrightarrow> PH v = Inr (Q v)"
  shows "findFirst PH ys = Inr (case find Q ys of Some v \<Rightarrow> v | None \<Rightarrow> JUndefined)"
  using assms by (induction ys) auto

lemma find_map_view: "find P (map f ys) = map_option f (find (\<lambda>v. P (f v)) ys)"
  by (induction ys) auto

lemma removeFound_map: "removeFound P (map f ys) = map f (removeFound (\<lambda>v. P (f v)) ys)"
  by (induction ys) auto

lemma find_Some_set: "find Q ys = Some v \<Longrightarrow> v \<in> set ys \<and> Q v"
  by (induction ys) (auto split: if_splits)

lemma filter_removeFound:
  "distinct ys \<Longrightarrow> find Q ys = Some found \<Longrightarrow> filter (\<lambda>v. v \<noteq> found) ys = removeFound Q ys"
proof (induction ys)
  case Nil
  then show ?case by simp
next
  case (Cons y ys)
  show ?case
  proof (cases "Q y")
    case True
    with Cons.prems have "found = y" by simp
    moreover have "filter (\<lambda>v. v \<noteq> y) ys = ys" using Cons.prems(1) by (auto intro: filter_True)
    ultimately show ?thesis using True by simp
  next
    case False
    with Cons.prems have f: "find Q ys = Some found" by simp
    then have "found \<in> set ys" using find_Some_set by fastforce
    with Cons.prems(1) have "y \<noteq> found" by auto
    with False Cons.IH [OF _ f] Cons.prems(1) show ?thesis by simp
  qed
qed

lemma getProp_stable:
  assumes "getProp h v f = Inr (JStr s)" and "prefix h g"
  shows "getProp g v f' = getProp h v f'"
proof -
  from assms(1) obtain b m where v: "v = JRef b" and c: "cellAt h b = Some (Obj m)"
    by (auto simp: getProp_def split: jsval.splits option.splits cell.splits)
  from cellAt_prefix [OF assms(2) c] have "cellAt g b = Some (Obj m)" .
  with v c show ?thesis by (simp add: getProp_def)
qed

lemma optView_stable:
  assumes "optView h v = Some op" and "prefix h g"
  shows "optView g v = Some op"
proof -
  from assms(1) obtain s where "getProp h v ''name'' = Inr (JStr s)"
    by (auto simp: optView_def split: sum.splits jsval.splits)
  from getProp_stable [OF this assms(2)]
  have e: "getProp g v ''name'' = getProp h v ''name''"
    "getProp g v ''quantity'' = getProp h v ''quantity''" by simp_all
  show ?thesis using assms(1) unfolding optView_def e .
qed

lemma optView_name:
  "optView h v = Some op \<Longrightarrow> getProp h v ''name'' = Inr (JStr (oname op)) \<and> truthy v"
  by (auto simp: optView_def getProp_def truthy_def
      split: sum.splits jsval.splits option.splits cell.splits)

lemma optView_main: "optView h v = Some op \<Longrightarrow> isMainOptionH h v = Inr (isMainOption op)"
  by (auto simp: optView_def isMainOptionH_def isMainOption_def split: sum.splits jsval.splits)

lemma optView_riceNoodle:
  "optView h v = Some op \<Longrightarrow> isRiceNoodleOptionH h v = Inr (isRiceNoodleOption op)"
  by (auto simp: optView_def isRiceNoodleOptionH_def isRiceNoodleOption_def
      split: sum.splits jsval.splits)

lemma optView_eggSpring:
  "standard co \<Longrightarrow> optView h v = Some op \<Longrightarrow>
   isEggSpringOptionH co h v = Inr (isEggSpringOption op)"
  by (auto simp: optView_def isEggSpringOptionH_def isEggSpringOption_def standard_def truthy_def
      split: sum.splits jsval.splits)


lemma processedAt_consume:
  assumes st: "processedAt h0 g p nm q ys" and co: "standard co"
  shows "processedAt h0 (consume co g p ys found sfx) p (nm @ ''/'' @ sfx) q
           (filter (\<lambda>v. v \<noteq> found) ys)"
proof -
  from st obtain m where m: "cellAt g p = Some (Obj m)"
    and pre: "prefix h0 g" and fresh: "length h0 \<le> p"
    and nm: "readProp g p ''name'' = JStr nm" and q: "readProp g p ''quantity'' = q"
    and d: "distinct ys" and v: "\<forall>v \<in> set ys. optView h0 v \<noteq> None"
    by (auto simp: processedAt_def)
  from m have lt: "p < length g" by (simp add: cellAt_def split: if_splits)
  from m lt have gp: "g ! p = Obj m" by (simp add: cellAt_def)
  from co have ts: "toStr co g (JStr nm) = nm" by (simp add: standard_def)
  let ?m2 = "m(''name'' \<mapsto> JStr (nm @ ''/'' @ sfx), ''options'' \<mapsto> JRef (length g))"
  let ?ys = "filter (\<lambda>v. v \<noteq> found) ys"
  have c: "consume co g p ys found sfx = (g[p := Obj ?m2]) @ [Arr ?ys]"
    using m lt gp nm ts
    by (simp add: consume_def writeProp_def allocate_def cellAt_def Let_def nth_append
        list_update_append)
  have 1: "prefix h0 (consume co g p ys found sfx)" using pre fresh by (rule prefix_consume)
  have 2: "cellAt ((g[p := Obj ?m2]) @ [Arr ?ys]) p = Some (Obj ?m2)"
    using lt by (simp add: cellAt_def nth_append)
  have 3: "cellAt ((g[p := Obj ?m2]) @ [Arr ?ys]) (length g) = Some (Arr ?ys)"
    by (simp add: cellAt_def nth_append)
  have q': "(case m ''quantity'' of None \<Rightarrow> JUndefined | Some x \<Rightarrow> x) = q"
    using q m by (simp add: readProp_def)
  have 4: "readProp ((g[p := Obj ?m2]) @ [Arr ?ys]) p ''quantity'' = q"
    unfolding readProp_def 2 using q' by simp
  show ?thesis
    unfolding c processedAt_def
    using 1 [unfolded c] fresh 2 3 4 d v by (auto simp: readProp_def optionsArray_def)
qed

lemma rule_step:
  assumes st: "processedAt h0 g p nm q ys" and co: "standard co"
    and PH: "\<And>v op. optView g v = Some op \<Longrightarrow> PH v = Inr (P op)"
    and sf: "\<And>op. sH (JStr (oname op)) = sP op"
  shows "\<exists>g' ys'.
     (case optionsArray g p of
        None \<Rightarrow> (g, Some TypeError)
      | Some xs \<Rightarrow>
          (case findFirst PH xs of
             Inl e \<Rightarrow> (g, Some e)
           | Inr found \<Rightarrow>
               if truthy found then
                 (case getProp g found ''name'' of
                    Inl e \<Rightarrow> (g, Some e)
                  | Inr n \<Rightarrow> (consume co g p xs found (sH n), None))
               else (g, None))) = (g', None) \<and>
     processedAt h0 g' p
       (case find P (map (\<lambda>v. the (optView h0 v)) ys) of
          Some op \<Rightarrow> nm @ ''/'' @ sP op | None \<Rightarrow> nm) q ys' \<and>
     map (\<lambda>v. the (optView h0 v)) ys' =
       (case find P (map (\<lambda>v. the (optView h0 v)) ys) of
          Some op \<Rightarrow> removeFound P (map (\<lambda>v. the (optView h0 v)) ys)
        | None \<Rightarrow> map (\<lambda>v. the (optView h0 v)) ys)"
proof -
  let ?view = "\<lambda>v. the (optView h0 v)"
  let ?Q = "\<lambda>v. P (?view v)"
  from st have oa: "optionsArray g p = Some ys" and pre: "prefix h0 g"
    and d: "distinct ys" and vs: "\<forall>v \<in> set ys. optView h0 v \<noteq> None"
    by (auto simp: processedAt_def)
  have view: "optView g v = Some (?view v)" if "v \<in> set ys" for v
  proof -
    from vs that obtain op where "optView h0 v = Some op" by auto
    with optView_stable [OF this pre] show ?thesis by simp
  qed
  have "findFirst PH ys = Inr (case find ?Q ys of Some v \<Rightarrow> v | None \<Rightarrow> JUndefined)"
    by (rule findFirst_find) (simp add: PH [OF view])
  then have ff: "findFirst PH ys = Inr (case find ?Q ys of Some v \<Rightarrow> v | None \<Rightarrow> JUndefined)" .
  have fm: "find P (map ?view ys) = map_option ?view (find ?Q ys)" by (rule find_map_view)
  show ?thesis
  proof (cases "find ?Q ys")
    case None
    then show ?thesis using oa ff fm st by (auto simp: truthy_def)
  next
    case (Some found)
    then have mem: "found \<in> set ys" using find_Some_set by fastforce
    from optView_name [OF view [OF mem]]
    have n: "getProp g found ''name'' = Inr (JStr (oname (?view found)))" and t: "truthy found"
      by simp_all
    have rf: "filter (\<lambda>v. v \<noteq> found) ys = removeFound ?Q ys"
      using d Some by (rule filter_removeFound)
    have "processedAt h0 (consume co g p ys found (sP (?view found))) p
            (nm @ ''/'' @ sP (?view found)) q (filter (\<lambda>v. v \<noteq> found) ys)"
      using st co by (rule processedAt_consume)
    moreover have "map ?view (filter (\<lambda>v. v \<noteq> found) ys) = removeFound P (map ?view ys)"
      unfolding rf by (simp add: removeFound_map)
    ultimately show ?thesis using oa ff fm Some n t sf by auto
  qed
qed


lemma setDisplayName_eq:
  assumes "standard co" and "cellAt g p = Some (Obj m)"
    and "readProp g p ''name'' = JStr nm" and "quantityView (readProp g p ''quantity'') = Some q"
  shows "setDisplayName co g p = g[p := Obj (m(''displayName'' \<mapsto> JStr (quantityLabel q nm)))]"
proof (cases "readProp g p ''quantity''")
  case JUndefined
  with assms show ?thesis
    by (simp add: setDisplayName_def writeProp_def quantityView_def quantityLabel_def standard_def)
next
  case (JNum k)
  with assms have "q = Some k" by (simp add: quantityView_def)
  with JNum assms(1,2,3) show ?thesis
    by (simp add: setDisplayName_def writeProp_def quantityLabel_def standard_def)
qed (use assms in \<open>simp_all add: quantityView_def\<close>)

lemma itemView_finished:
  assumes st: "processedAt h0 g p nm qv ys" and m: "cellAt g p = Some (Obj m)"
    and q: "quantityView qv = Some q"
  shows "itemView (g[p := Obj (m(''displayName'' \<mapsto> d))]) p
           = Some (nm, q, Some (map (\<lambda>v. the (optView h0 v)) ys)) \<and>
         readProp (g[p := Obj (m(''displayName'' \<mapsto> d))]) p ''displayName'' = d"
proof -
  let ?g = "g[p := Obj (m(''displayName'' \<mapsto> d))]"
  from st have pre: "prefix h0 g" and fresh: "length h0 \<le> p"
    and nm: "readProp g p ''name'' = JStr nm" and qv: "readProp g p ''quantity'' = qv"
    and oa: "optionsArray g p = Some ys" and vs: "\<forall>v \<in> set ys. optView h0 v \<noteq> None"
    by (auto simp: processedAt_def)
  from m have lt: "p < length g" by (simp add: cellAt_def split: if_splits)
  have g: "?g = writeProp g p ''displayName'' d" using m by (simp add: writeProp_def)
  have pre': "prefix h0 ?g" unfolding g using pre fresh by (rule prefix_writeProp)
  have c: "cellAt ?g p = Some (Obj (m(''displayName'' \<mapsto> d)))"
    using lt by (simp add: cellAt_def)
  have r: "readProp ?g p f = (if f = ''displayName'' then d else readProp g p f)" for f
    using m by (simp add: readProp_def c)
  from oa obtain b where b: "readProp g p ''options'' = JRef b" "cellAt g b = Some (Arr ys)"
    by (auto simp: optionsArray_def split: jsval.splits option.splits cell.splits)
  from b(2) m have "b \<noteq> p" by auto
  with b(2) have "cellAt ?g b = Some (Arr ys)" by (simp add: cellAt_def split: if_splits)
  with b(1) have oa': "optionsArray ?g p = Some ys" by (simp add: optionsArray_def r)
  have "optView ?g v = optView h0 v" if "v \<in> set ys" for v
  proof -
    from vs that obtain op where "optView h0 v = Some op" by auto
    with optView_stable [OF this pre'] show ?thesis by simp
  qed
  then have ov: "optionsView ?g ys = Some (map (\<lambda>v. the (optView h0 v)) ys)"
    using vs by (simp add: optionsView_def)
  show ?thesis using c r nm qv q oa' ov b(1) by (simp add: itemView_def)
qed

lemma specialRuleH_shape:
  "specialRuleH co g p =
     (if readProp g p ''name'' = JStr SPECIAL_ITEM then
        (case optionsArray g p of
           None \<Rightarrow> (g, Some TypeError)
         | Some xs \<Rightarrow>
             (case findFirst (isMainOptionH g) xs of
                Inl e \<Rightarrow> (g, Some e)
              | Inr found \<Rightarrow>
                  if truthy found then
                    (case getProp g found ''name'' of
                       Inl e \<Rightarrow> (g, Some e)
                     | Inr n \<Rightarrow> (consume co g p xs found (toStr co g n), None))
                  else (g, None)))
      else (g, None))"
  by (simp add: specialRuleH_def)

text \<open>
  The two models agree. Take a heap in which the item at \<open>a\<close> is seen as a name, a quantity and
  options, its options array holding each option object once, and conversions that are the
  language's on strings and numbers. Then the heap model returns normally, and the object
  it returns is seen as the name and options that \<open>preprocessOrderItem\<close> computes from those
  values, with the same display name. In particular dropping the found object by identity
  is dropping the first option that satisfies the predicate.
\<close>

theorem preprocessOrderItem_models_agree:
  assumes co: "standard co" and iv: "itemView h a = Some (nm, q, os)"
    and dist: "\<And>xs. optionsArray h a = Some xs \<Longrightarrow> distinct xs"
  shows "\<exists>h' p d. preprocessOrderItemH co h a = (h', Inr p) \<and>
           displayName (preprocessOrderItem (base\<lparr>name := nm, quantity := q, options := os\<rparr>)) = Some d \<and>
           readProp h' p ''displayName'' = JStr d \<and>
           itemView h' p =
             Some (name (preprocessOrderItem (base\<lparr>name := nm, quantity := q, options := os\<rparr>)), q,
                   options (preprocessOrderItem (base\<lparr>name := nm, quantity := q, options := os\<rparr>)))"
proof -
  let ?it = "base\<lparr>name := nm, quantity := q, options := os\<rparr>"
  let ?p = "length h"
  from iv obtain m where m: "cellAt h a = Some (Obj m)"
    and nm: "readProp h a ''name'' = JStr nm"
    and q: "quantityView (readProp h a ''quantity'') = Some q"
    by (auto simp: itemView_def split: option.splits cell.splits jsval.splits)
  let ?g0 = "h @ [Obj m]"
  have c0: "cellAt ?g0 ?p = Some (Obj m)" by (simp add: cellAt_def)
  have r0: "readProp ?g0 ?p f = readProp h a f" for f using m by (simp add: readProp_def c0)
  have arr0: "cellAt ?g0 b = Some (Arr xs) \<longleftrightarrow> cellAt h b = Some (Arr xs)" for b xs
    by (auto simp: cellAt_def nth_append split: if_splits)
  have oa0: "optionsArray ?g0 ?p = optionsArray h a"
  proof (cases "readProp h a ''options''")
    case (JRef b)
    have "(case cellAt ?g0 b of Some (Arr xs) \<Rightarrow> Some xs | _ \<Rightarrow> None)
        = (case cellAt h b of Some (Arr xs) \<Rightarrow> Some xs | _ \<Rightarrow> None)"
      by (auto simp: cellAt_def nth_append split: option.splits cell.splits if_splits)
    with JRef show ?thesis by (simp add: optionsArray_def r0)
  qed (simp_all add: optionsArray_def r0)
  have start: "preprocessOrderItemH co h a =
     (case optionsArray h a of
        None \<Rightarrow> (setDisplayName co ?g0 ?p, Inr ?p)
      | Some xs \<Rightarrow>
          if length xs = 0 then (setDisplayName co ?g0 ?p, Inr ?p)
          else
            (case specialRuleH co ?g0 ?p of
               (h1, Some e) \<Rightarrow> (h1, Inl e)
             | (h1, None) \<Rightarrow>
                 (case eggSpringRuleH co h1 ?p of
                    (h2, Some e) \<Rightarrow> (h2, Inl e)
                  | (h2, None) \<Rightarrow>
                      (case riceNoodleRuleH co h2 ?p of
                         (h3, Some e) \<Rightarrow> (h3, Inl e)
                       | (h3, None) \<Rightarrow> (setDisplayName co h3 ?p, Inr ?p)))))"
    using m by (simp add: preprocessOrderItemH_def allocate_def oa0)
  have sd0: "setDisplayName co ?g0 ?p = ?g0[?p := Obj (m(''displayName'' \<mapsto> JStr (quantityLabel q nm)))]"
    using co c0 by (rule setDisplayName_eq) (simp_all add: r0 nm q)
  show ?thesis
  proof (cases "optionsArray h a")
    case None
    with iv have os: "os = None" and ou: "readProp h a ''options'' = JUndefined"
      by (auto simp: itemView_def split: option.splits cell.splits jsval.splits)
    let ?h' = "?g0[?p := Obj (m(''displayName'' \<mapsto> JStr (quantityLabel q nm)))]"
    have c: "cellAt ?h' ?p = Some (Obj (m(''displayName'' \<mapsto> JStr (quantityLabel q nm))))"
      by (simp add: cellAt_def)
    have r: "readProp ?h' ?p f = (if f = ''displayName'' then JStr (quantityLabel q nm)
                                  else readProp h a f)" for f
      unfolding readProp_def c m by simp
    have "itemView ?h' ?p = Some (nm, q, None)"
      using c r nm q ou by (simp add: itemView_def)
    moreover have "preprocessOrderItemH co h a = (?h', Inr ?p)"
      using None by (simp add: start sd0)
    ultimately show ?thesis using os r by (simp add: preprocessOrderItem_def)
  next
    case (Some xs)
    then obtain b where rb: "readProp h a ''options'' = JRef b"
      by (auto simp: optionsArray_def split: jsval.splits)
    have "optionsView h xs \<noteq> None \<and> os = optionsView h xs"
      using iv Some rb
      by (cases "optionsView h xs")
        (auto simp: itemView_def split: option.splits cell.splits jsval.splits)
    then have vs: "\<forall>v \<in> set xs. optView h v \<noteq> None"
      and osv: "os = Some (map (\<lambda>v. the (optView h v)) xs)"
      by (auto simp: optionsView_def split: if_splits)
    let ?view = "\<lambda>v. the (optView h v)"
    have st0: "processedAt h ?g0 ?p nm (readProp h a ''quantity'') xs"
      using c0 nm Some dist [OF Some] vs by (simp add: processedAt_def r0 oa0)
    show ?thesis
    proof (cases "xs = []")
      case True
      from itemView_finished [OF st0 c0 q, of "JStr (quantityLabel q nm)"]
      have "itemView (setDisplayName co ?g0 ?p) ?p = Some (nm, q, Some [])"
        and "readProp (setDisplayName co ?g0 ?p) ?p ''displayName'' = JStr (quantityLabel q nm)"
        using True by (simp_all add: sd0)
      moreover have "preprocessOrderItemH co h a = (setDisplayName co ?g0 ?p, Inr ?p)"
        using Some True by (simp add: start)
      ultimately show ?thesis using osv True by (simp add: preprocessOrderItem_def)
    next
      case False
      let ?os = "map ?view xs"
      obtain n1 o1 where a1: "applySpecialRule (nm, ?os) = (n1, o1)" by fastforce
      have "\<exists>g1 ys1. specialRuleH co ?g0 ?p = (g1, None) \<and>
              processedAt h g1 ?p n1 (readProp h a ''quantity'') ys1 \<and> map ?view ys1 = o1"
      proof (cases "nm = SPECIAL_ITEM")
        case True
        have "\<And>op. toStr co ?g0 (JStr (oname op)) = oname op"
          using co by (simp add: standard_def)
        from rule_step [where PH = "isMainOptionH ?g0" and P = isMainOption
            and sH = "toStr co ?g0" and sP = oname, OF st0 co optView_main this]
        show ?thesis using True a1 st0
          by (auto simp: specialRuleH_shape applySpecialRule_def processedAt_def
              split: option.splits)
      next
        case False
        then show ?thesis using a1 st0
          by (auto simp: specialRuleH_shape applySpecialRule_def processedAt_def)
      qed
      then obtain g1 ys1 where s1: "specialRuleH co ?g0 ?p = (g1, None)"
        and st1: "processedAt h g1 ?p n1 (readProp h a ''quantity'') ys1"
        and v1: "map ?view ys1 = o1" by blast
      obtain n2 o2 where a2: "applyEggSpringRule (n1, o1) = (n2, o2)" by fastforce
      have "\<And>op. (if JStr (oname op) = JStr EGG_ROLL then ''ER'' else ''SP'')
               = (if oname op = EGG_ROLL then ''ER'' else ''SP'')" by simp
      from rule_step [where PH = "isEggSpringOptionH co g1" and P = isEggSpringOption
          and sH = "\<lambda>n. if n = JStr EGG_ROLL then ''ER'' else ''SP''"
          and sP = "\<lambda>op. if oname op = EGG_ROLL then ''ER'' else ''SP''",
          OF st1 co optView_eggSpring [OF co] this]
      obtain g2 ys2 where s2: "eggSpringRuleH co g1 ?p = (g2, None)"
        and st2: "processedAt h g2 ?p n2 (readProp h a ''quantity'') ys2"
        and v2: "map ?view ys2 = o2"
        using a2 v1 by (auto simp: eggSpringRuleH_def applyEggSpringRule_def split: option.splits)
      obtain n3 o3 where a3: "applyRiceNoodleRule (n2, o2) = (n3, o3)" by fastforce
      have "\<And>op. (if JStr (oname op) = JStr RICE then ''Rice'' else ''ND'')
               = (if oname op = RICE then ''Rice'' else ''ND'')" by simp
      from rule_step [where PH = "isRiceNoodleOptionH g2" and P = isRiceNoodleOption
          and sH = "\<lambda>n. if n = JStr RICE then ''Rice'' else ''ND''"
          and sP = "\<lambda>op. if oname op = RICE then ''Rice'' else ''ND''",
          OF st2 co optView_riceNoodle this]
      obtain g3 ys3 where s3: "riceNoodleRuleH co g2 ?p = (g3, None)"
        and st3: "processedAt h g3 ?p n3 (readProp h a ''quantity'') ys3"
        and v3: "map ?view ys3 = o3"
        using a3 v2 by (auto simp: riceNoodleRuleH_def applyRiceNoodleRule_def split: option.splits)
      from st3 obtain m3 where c3: "cellAt g3 ?p = Some (Obj m3)"
        and nm3: "readProp g3 ?p ''name'' = JStr n3"
        and q3: "readProp g3 ?p ''quantity'' = readProp h a ''quantity''"
        by (auto simp: processedAt_def)
      have sd3: "setDisplayName co g3 ?p
          = g3[?p := Obj (m3(''displayName'' \<mapsto> JStr (quantityLabel q n3)))]"
        using co c3 nm3 by (rule setDisplayName_eq) (simp add: q3 q)
      from itemView_finished [OF st3 c3 q, of "JStr (quantityLabel q n3)"]
      have "itemView (setDisplayName co g3 ?p) ?p = Some (n3, q, Some o3)"
        and "readProp (setDisplayName co g3 ?p) ?p ''displayName'' = JStr (quantityLabel q n3)"
        by (simp_all add: sd3 v3)
      moreover have "preprocessOrderItemH co h a = (setDisplayName co g3 ?p, Inr ?p)"
        using Some False s1 s2 s3 by (simp add: start)
      moreover have "preprocessOrderItem ?it =
          ?it\<lparr>name := n3, options := Some o3, displayName := Some (quantityLabel q n3)\<rparr>"
        using osv False a1 a2 a3
        by (cases xs) (simp_all add: preprocessOrderItem_def)
      ultimately show ?thesis by simp
    qed
  qed
qed


lemma standard_plainCoercions: "standard plainCoercions"
  by (simp add: standard_def plainCoercions_def)

lemma preprocessOrderItem_models_agree_sample:
  "itemView sampleHeap 3
     = Some (''#3'', Some 2,
             Some [\<lparr>oname = ''Egg Roll'', oquantity = None, oprice = None\<rparr>,
                   \<lparr>oname = ''Fried Rice'', oquantity = None, oprice = None\<rparr>]) \<and>
   itemView (fst (preprocessOrderItemH plainCoercions sampleHeap 3)) 4
     = Some (''#3/Fried Rice/ER'', Some 2, Some [])"
proof -
  have iv: "itemView sampleHeap 3
     = Some (''#3'', Some 2,
             Some [\<lparr>oname = ''Egg Roll'', oquantity = None, oprice = None\<rparr>,
                   \<lparr>oname = ''Fried Rice'', oquantity = None, oprice = None\<rparr>])"
    by (simp add: itemView_def sampleHeap_def cellAt_def readProp_def quantityView_def
        optionsArray_def optionsView_def optView_def getProp_def)
  have d: "\<And>xs. optionsArray sampleHeap 3 = Some xs \<Longrightarrow> distinct xs"
    by (auto simp: optionsArray_def sampleHeap_def cellAt_def readProp_def)
  let ?R = "preprocessOrderItem (sampleItem\<lparr>name := ''#3'', quantity := Some 2, options :=
       Some [\<lparr>oname = ''Egg Roll'', oquantity = None, oprice = None\<rparr>,
             \<lparr>oname = ''Fried Rice'', oquantity = None, oprice = None\<rparr>]\<rparr>)"
  have R: "name ?R = ''#3/Fried Rice/ER''" "options ?R = Some []"
    by (simp_all add: preprocessOrderItem_def applySpecialRule_def applyEggSpringRule_def
        applyRiceNoodleRule_def isMainOption_def isEggSpringOption_def isRiceNoodleOption_def
        config_defs)
  from preprocessOrderItem_models_agree [OF standard_plainCoercions iv d, of sampleItem]
  obtain h' p where "preprocessOrderItemH plainCoercions sampleHeap 3 = (h', Inr p)"
    and "itemView h' p = Some (name ?R, Some 2, options ?R)" by blast
  with sample_run R have "itemView (fst (preprocessOrderItemH plainCoercions sampleHeap 3)) 4
     = Some (''#3/Fried Rice/ER'', Some 2, Some [])" by simp
  with iv show ?thesis by simp
qed

end
